theory Spec2Isabelle
  imports
    Main
    "HOL-Library.Multiset"
    "HOL-Library.Char_ord"
    "HOL-Library.List_Lexorder"
begin

section \<open>Go standard library functions used by the generator\<close>

text \<open>
  Go strings are byte sequences, modelled as \<^typ>\<open>string\<close> (a list of 8-bit characters).
  The case functions of package \<^verbatim>\<open>strings\<close> below are exact on ASCII text, which is what
  D-Bus interface, member and argument names are made of; a byte above 0x7F is left as it is.
  The regular expressions of the program only have ASCII classes, so matching on bytes
  is what Go's matching on UTF-8 runes does.
\<close>

subsection \<open>Characters\<close>

definition isLower :: "char \<Rightarrow> bool" where
  "isLower c = (CHR ''a'' \<le> c \<and> c \<le> CHR ''z'')"

definition isUpper :: "char \<Rightarrow> bool" where
  "isUpper c = (CHR ''A'' \<le> c \<and> c \<le> CHR ''Z'')"

definition isDigit :: "char \<Rightarrow> bool" where
  "isDigit c = (CHR ''0'' \<le> c \<and> c \<le> CHR ''9'')"

definition isLetter :: "char \<Rightarrow> bool" where
  "isLetter c = (isLower c \<or> isUpper c)"

text \<open>The class \<^verbatim>\<open>[a-zA-Z0-9]\<close>.\<close>

definition isAlnum :: "char \<Rightarrow> bool" where
  "isAlnum c = (isLetter c \<or> isDigit c)"

definition toUpperChar :: "char \<Rightarrow> char" where
  "toUpperChar c = (if isLower c then char_of (of_char c - (32::nat)) else c)"

definition toLowerChar :: "char \<Rightarrow> char" where
  "toLowerChar c = (if isUpper c then char_of (of_char c + (32::nat)) else c)"

subsection \<open>Package strings\<close>

definition ToUpper :: "string \<Rightarrow> string" where
  "ToUpper s = map toUpperChar s"

definition ToLower :: "string \<Rightarrow> string" where
  "ToLower s = map toLowerChar s"

text \<open>
  \<^verbatim>\<open>strings.Title\<close> upper-cases the first letter of every word. A word starts after a
  separator; letters, digits and the underscore are not separators, every other ASCII
  character is. The scan starts as if a space came before the text.
\<close>

definition isSeparator :: "char \<Rightarrow> bool" where
  "isSeparator c = (\<not> isAlnum c \<and> c \<noteq> CHR ''_'' \<and> c \<le> CHR 0x7F)"

fun titleFrom :: "char \<Rightarrow> string \<Rightarrow> string" where
  "titleFrom prev [] = []"
| "titleFrom prev (c # cs) =
     (if isSeparator prev then toUpperChar c else c) # titleFrom c cs"

definition Title :: "string \<Rightarrow> string" where
  "Title s = titleFrom (CHR '' '') s"

text \<open>\<^verbatim>\<open>strings.TrimLeft(s, cutset)\<close> drops the leading characters that are in the cutset.\<close>

definition TrimLeft :: "string \<Rightarrow> string \<Rightarrow> string" where
  "TrimLeft s cutset = dropWhile (\<lambda>c. c \<in> set cutset) s"

fun HasPrefix :: "string \<Rightarrow> string \<Rightarrow> bool" where
  "HasPrefix s [] = True"
| "HasPrefix [] (p # ps) = False"
| "HasPrefix (c # cs) (p # ps) = (c = p \<and> HasPrefix cs ps)"

text \<open>
  \<^verbatim>\<open>strings.Index(s, substr)\<close> is the index of the first occurrence of the substring,
  or -1 when there is none.
\<close>

fun Index :: "string \<Rightarrow> string \<Rightarrow> int" where
  "Index [] substr = (if substr = [] then 0 else - 1)"
| "Index (c # cs) substr =
     (if HasPrefix (c # cs) substr then 0
      else (let r = Index cs substr in if r = - 1 then - 1 else r + 1))"

subsection \<open>Package strconv\<close>

definition digitChar :: "nat \<Rightarrow> char" where
  "digitChar d = char_of (48 + d)"

fun digits :: "nat \<Rightarrow> string" where
  "digits n = (if n < 10 then [digitChar n] else digits (n div 10) @ [digitChar (n mod 10)])"

declare digits.simps [simp del]

definition Itoa :: "int \<Rightarrow> string" where
  "Itoa i = (if i < 0 then CHR ''-'' # digits (nat (- i)) else digits (nat i))"

subsection \<open>Package regexp\<close>

text \<open>
  The patterns of the program are sequences of character classes, each taken once or
  repeated greedily (\<^verbatim>\<open>+\<close>, \<^verbatim>\<open>*\<close>), with an optional \<^verbatim>\<open>^\<close> in front and \<^verbatim>\<open>$\<close> behind.
  \<^term>\<open>matchHere\<close> gives the length of the match that Go's leftmost-first rule
  selects among the matches starting at the head of the text: a repetition takes as
  many characters as it can and gives one back at a time when the rest of the pattern
  fails.
\<close>

datatype quant = One | Plus | Star

datatype item = Rep quant "char \<Rightarrow> bool" | EndText

record regexp =
  beginText :: bool
  items :: "item list"

fun matchHere :: "item list \<Rightarrow> string \<Rightarrow> nat option" where
  "matchHere [] s = Some 0"
| "matchHere (EndText # r) s = (if s = [] then matchHere r s else None)"
| "matchHere (Rep One p # r) [] = None"
| "matchHere (Rep One p # r) (c # cs) =
     (if p c then map_option Suc (matchHere r cs) else None)"
| "matchHere (Rep Plus p # r) [] = None"
| "matchHere (Rep Plus p # r) (c # cs) =
     (if p c then map_option Suc (matchHere (Rep Star p # r) cs) else None)"
| "matchHere (Rep Star p # r) [] = matchHere r []"
| "matchHere (Rep Star p # r) (c # cs) =
     (if p c then
        (case matchHere (Rep Star p # r) cs of
           Some n \<Rightarrow> Some (Suc n)
         | None \<Rightarrow> matchHere r (c # cs))
      else matchHere r (c # cs))"

text \<open>\<^verbatim>\<open>MatchString\<close>: is there a match anywhere in the text (only at its start under \<^verbatim>\<open>^\<close>).\<close>

fun matchAnywhere :: "item list \<Rightarrow> string \<Rightarrow> bool" where
  "matchAnywhere r [] = (matchHere r [] \<noteq> None)"
| "matchAnywhere r (c # cs) = (matchHere r (c # cs) \<noteq> None \<or> matchAnywhere r cs)"

definition MatchString :: "regexp \<Rightarrow> string \<Rightarrow> bool" where
  "MatchString re s =
     (if beginText re then matchHere (items re) s \<noteq> None else matchAnywhere (items re) s)"

text \<open>
  \<^verbatim>\<open>ReplaceAllStringFunc\<close> scans the text from the left and replaces every match by the
  result of the function on the matched text, going on behind the match; text that is
  not matched is copied. The patterns it is used with here have no \<^verbatim>\<open>^\<close> and never
  match the empty text.
\<close>

fun ReplaceAllStringFunc :: "regexp \<Rightarrow> string \<Rightarrow> (string \<Rightarrow> string) \<Rightarrow> string" where
  "ReplaceAllStringFunc re [] repl = []"
| "ReplaceAllStringFunc re (c # cs) repl =
     (case matchHere (items re) (c # cs) of
        Some (Suc n) \<Rightarrow> repl (c # take n cs) @ ReplaceAllStringFunc re (drop n cs) repl
      | _ \<Rightarrow> c # ReplaceAllStringFunc re cs repl)"

subsection \<open>Package go/token\<close>

text \<open>The keywords of Go, in the order of the token table.\<close>

definition keywordTokens :: "string list" where
  "keywordTokens =
     [''break'', ''case'', ''chan'', ''const'', ''continue'',
      ''default'', ''defer'', ''else'', ''fallthrough'', ''for'',
      ''func'', ''go'', ''goto'', ''if'', ''import'',
      ''interface'', ''map'', ''package'', ''range'', ''return'',
      ''select'', ''struct'', ''switch'', ''type'', ''var'']"

text \<open>\<^verbatim>\<open>token.Lookup(s).IsKeyword()\<close>: the identifier is mapped to a keyword token.\<close>

definition Lookup_IsKeyword :: "string \<Rightarrow> bool" where
  "Lookup_IsKeyword s = (s \<in> set keywordTokens)"

section \<open>Package token: the intermediate model\<close>

text \<open>
  The declarations of package \<^verbatim>\<open>token\<close> are not among the sources; the records have the
  fields that the printer and its template read. The Go slices hold pointers; the
  model holds the values: no pointer is nil, and no two entries of a slice are the
  same pointer.
\<close>

record Annotation =
  annotation_Name :: string
  annotation_Value :: string

record Arg =
  arg_Name :: string
  arg_Type :: string

record Method =
  method_Name :: string
  method_In :: "Arg list"
  method_Out :: "Arg list"
  method_Annotations :: "Annotation list"

record Property =
  prop_Name :: string
  prop_Arg :: Arg
  prop_Read :: bool
  prop_Write :: bool
  prop_Annotations :: "Annotation list"

record Signal =
  signal_Name :: string
  signal_Args :: "Arg list"
  signal_Annotations :: "Annotation list"

record Interface =
  iface_Name :: string
  iface_Methods :: "Method list"
  iface_Properties :: "Property list"
  iface_Signals :: "Signal list"
  iface_Annotations :: "Annotation list"

section \<open>Package printer\<close>

subsection \<open>Errors\<close>

text \<open>
  \<^term>\<open>ErrorsNew\<close> is \<^verbatim>\<open>errors.New\<close>; the two panics are the run-time errors of indexing
  and slicing a string out of range; the last two are the errors of \<^verbatim>\<open>go/parser\<close> and
  \<^verbatim>\<open>go/format\<close>.
\<close>

datatype error =
    ErrorsNew string
  | PanicIndexOutOfRange
  | PanicSliceBounds
  | ParseError string
  | FormatError string

subsection \<open>Options\<close>

record printer =
  pkgName :: string
  gofmt :: bool
  prefixes :: "string list"

datatype PrintOption =
    WithPackageName string
  | WithGofmt bool
  | WithPrefixes "string list"

fun applyOption :: "PrintOption \<Rightarrow> printer \<Rightarrow> printer" where
  "applyOption (WithPackageName name) p = p\<lparr>pkgName := name\<rparr>"
| "applyOption (WithGofmt enable) p = p\<lparr>gofmt := enable\<rparr>"
| "applyOption (WithPrefixes ps) p = p\<lparr>prefixes := ps\<rparr>"

text \<open>\<^verbatim>\<open>^[a-zA-Z][a-zA-Z0-9_]*$\<close>\<close>

definition identRegexp :: regexp where
  "identRegexp =
     \<lparr>beginText = True,
      items = [Rep One isLetter, Rep Star (\<lambda>c. isAlnum c \<or> c = CHR ''_''), EndText]\<rparr>"

subsection \<open>Derived identifiers\<close>

text \<open>
  The functions are methods of \<^verbatim>\<open>*printer\<close>; the receiver is an argument of the model
  where the function reads it (only \<^verbatim>\<open>ifaceType\<close> and the functions built on it do).
\<close>

definition isKeyword :: "string \<Rightarrow> bool" where
  "isKeyword s = Lookup_IsKeyword s"

text \<open>\<^verbatim>\<open>[._][a-zA-Z0-9]\<close>\<close>

definition ifaceRegexp :: regexp where
  "ifaceRegexp =
     \<lparr>beginText = False,
      items = [Rep One (\<lambda>c. c = CHR ''.'' \<or> c = CHR ''_''), Rep One isAlnum]\<rparr>"

text \<open>
  The loop over the prefixes of \<^verbatim>\<open>ifaceType\<close>. \<^verbatim>\<open>prefix[len(prefix)-1]\<close> panics on an
  empty prefix, and \<^verbatim>\<open>name[i+len(prefix)+1:]\<close> panics when the occurrence found ends
  the name.
\<close>

fun stripPrefixes :: "string list \<Rightarrow> string \<Rightarrow> error + string" where
  "stripPrefixes [] name = Inr name"
| "stripPrefixes (prefix # rest) name =
     (if prefix = [] then Inl PanicIndexOutOfRange
      else
        (let prefix = (if last prefix = CHR ''.'' then butlast prefix else prefix);
             i = Index name prefix
         in if i \<noteq> - 1 then
              (if nat i + length prefix + 1 \<le> length name
               then Inr (drop (nat i + length prefix + 1) name)
               else Inl PanicSliceBounds)
            else stripPrefixes rest name))"

definition ifaceType :: "printer \<Rightarrow> Interface \<Rightarrow> error + string" where
  "ifaceType p iface =
     (case stripPrefixes (prefixes p) (iface_Name iface) of
        Inl e \<Rightarrow> Inl e
      | Inr name \<Rightarrow>
          (let name = Title name
           in if isKeyword name then Inr name
              else Inr (ReplaceAllStringFunc ifaceRegexp name
                          (\<lambda>s. ''_'' @ ToUpper (drop 1 s)))))"

definition ifaceNewType :: "printer \<Rightarrow> Interface \<Rightarrow> error + string" where
  "ifaceNewType p iface = map_sum id (\<lambda>t. ''New'' @ t) (ifaceType p iface)"

definition ifaceNameConst :: "printer \<Rightarrow> Interface \<Rightarrow> error + string" where
  "ifaceNameConst p iface = map_sum id (\<lambda>t. ''Interface'' @ t) (ifaceType p iface)"

definition ifaceHasMethod :: "Interface \<Rightarrow> string \<Rightarrow> bool" where
  "ifaceHasMethod iface name = list_ex (\<lambda>method. method_Name method = name) (iface_Methods iface)"

definition ifacesHaveSignals :: "Interface list \<Rightarrow> bool" where
  "ifacesHaveSignals ifaces = list_ex (\<lambda>iface. length (iface_Signals iface) \<noteq> 0) ifaces"

definition methodType :: "Method \<Rightarrow> string" where
  "methodType method = Title (method_Name method)"

definition propType :: "Property \<Rightarrow> string" where
  "propType prop = Title (prop_Name prop)"

definition propGetType :: "Property \<Rightarrow> string" where
  "propGetType prop = ''Get'' @ propType prop"

definition propSetType :: "Property \<Rightarrow> string" where
  "propSetType prop = ''Set'' @ propType prop"

text \<open>The loop returns false at the first method of that name, true when there is none.\<close>

fun propNeedsAccessorLoop :: "Method list \<Rightarrow> string \<Rightarrow> bool" where
  "propNeedsAccessorLoop [] name = True"
| "propNeedsAccessorLoop (method # rest) name =
     (if method_Name method = name then False else propNeedsAccessorLoop rest name)"

definition propNeedsAccessor :: "Interface \<Rightarrow> string \<Rightarrow> bool" where
  "propNeedsAccessor iface name = propNeedsAccessorLoop (iface_Methods iface) name"

definition propNeedsSet :: "Interface \<Rightarrow> Property \<Rightarrow> bool" where
  "propNeedsSet iface prop =
     (if \<not> prop_Write prop then False else propNeedsAccessor iface (propSetType prop))"

definition propNeedsGet :: "Interface \<Rightarrow> Property \<Rightarrow> bool" where
  "propNeedsGet iface prop =
     (if \<not> prop_Read prop then False else propNeedsAccessor iface (propGetType prop))"

definition signalType :: "printer \<Rightarrow> Interface \<Rightarrow> Signal \<Rightarrow> error + string" where
  "signalType p iface signal =
     map_sum id (\<lambda>t. t @ ''_'' @ Title (signal_Name signal) @ ''Signal'') (ifaceType p iface)"

definition signalBodyType :: "printer \<Rightarrow> Interface \<Rightarrow> Signal \<Rightarrow> error + string" where
  "signalBodyType p iface signal = map_sum id (\<lambda>t. t @ ''Body'') (signalType p iface signal)"

text \<open>\<^verbatim>\<open>_+[a-zA-Z0-9]\<close>\<close>

definition varRegexp :: regexp where
  "varRegexp =
     \<lparr>beginText = False, items = [Rep Plus (\<lambda>c. c = CHR ''_''), Rep One isAlnum]\<rparr>"

text \<open>The index is a Go \<^verbatim>\<open>int\<close>; the callers pass the index of a \<^verbatim>\<open>range\<close> loop, or 0.\<close>

definition argName :: "Arg \<Rightarrow> string \<Rightarrow> int \<Rightarrow> bool \<Rightarrow> string" where
  "argName arg prefix i export =
     (let name = arg_Name arg;
          name = (if name = [] then prefix @ Itoa i
                  else ToLower (take 1 name) @
                       ReplaceAllStringFunc varRegexp (drop 1 name)
                         (\<lambda>s. Title (TrimLeft s ''_'')));
          name = (if export then Title name else name)
      in if isKeyword name then prefix @ Title name else name)"

definition propArgName :: "Property \<Rightarrow> string" where
  "propArgName prop = argName (prop_Arg prop) ''v'' 0 False"

text \<open>The loops over the arguments, from index \<open>i\<close> on.\<close>

fun joinStoreArgsFrom :: "nat \<Rightarrow> Arg list \<Rightarrow> string" where
  "joinStoreArgsFrom i [] = []"
| "joinStoreArgsFrom i (a # args) =
     (if i \<noteq> 0 then '','' else []) @ ''&'' @ argName a ''out'' (int i) False
       @ joinStoreArgsFrom (Suc i) args"

definition joinStoreArgs :: "Arg list \<Rightarrow> string" where
  "joinStoreArgs args = joinStoreArgsFrom 0 args"

fun joinArgsFrom :: "nat \<Rightarrow> Arg list \<Rightarrow> char \<Rightarrow> string \<Rightarrow> bool \<Rightarrow> string" where
  "joinArgsFrom i [] separator suffix export = []"
| "joinArgsFrom i (a # args) separator suffix export =
     argName a suffix (int i) export @ '' '' @ arg_Type a @ [separator]
       @ joinArgsFrom (Suc i) args separator suffix export"

definition joinArgs :: "Arg list \<Rightarrow> char \<Rightarrow> string \<Rightarrow> bool \<Rightarrow> string" where
  "joinArgs args separator suffix export = joinArgsFrom 0 args separator suffix export"

definition joinSignalArgs :: "Signal \<Rightarrow> string" where
  "joinSignalArgs sig = joinArgs (signal_Args sig) (CHR '';'') ''v'' True"

definition joinMethodInArgs :: "Method \<Rightarrow> string" where
  "joinMethodInArgs method = joinArgs (method_In method) (CHR '','') ''in'' False"

definition joinMethodOutArgs :: "Method \<Rightarrow> string" where
  "joinMethodOutArgs method = joinArgs (method_Out method) (CHR '','') ''out'' False"

fun joinArgNamesFrom :: "nat \<Rightarrow> Arg list \<Rightarrow> string" where
  "joinArgNamesFrom i [] = []"
| "joinArgNamesFrom i (a # args) =
     (if i \<noteq> 0 then '','' else []) @ argName a ''in'' (int i) False
       @ joinArgNamesFrom (Suc i) args"

definition joinArgNames :: "Arg list \<Rightarrow> string" where
  "joinArgNames args = joinArgNamesFrom 0 args"

subsection \<open>The template\<close>

text \<open>
  Executing the template writes its text and the results of its actions in order and
  stops at the first action that fails; a template function that panics makes the
  execution fail with that error. The only function that can fail is \<^verbatim>\<open>ifaceType\<close>,
  with the functions built on it. A piece of the output is a text or an error, and
  \<^term>\<open>pieces\<close> puts pieces together up to the first error. The trim markers of the
  template (\<^verbatim>\<open>{{-\<close>, \<^verbatim>\<open>-}}\<close>) have been applied to the texts below.
\<close>

definition TAB :: string where
  "TAB = [CHR 0x09]"

definition lit :: "string \<Rightarrow> error + string" where
  "lit s = Inr s"

fun pieces :: "(error + string) list \<Rightarrow> error + string" where
  "pieces [] = Inr []"
| "pieces (Inl e # xs) = Inl e"
| "pieces (Inr s # xs) = (case pieces xs of Inl e \<Rightarrow> Inl e | Inr t \<Rightarrow> Inr (s @ t))"

text \<open>\<^verbatim>\<open>{{ range $x := xs }}\<close> and \<^verbatim>\<open>{{ range $i, $x := xs }}\<close>.\<close>

definition rangeOver :: "'a list \<Rightarrow> ('a \<Rightarrow> error + string) \<Rightarrow> error + string" where
  "rangeOver xs body = pieces (map body xs)"

definition rangeIndexed :: "'a list \<Rightarrow> (nat \<Rightarrow> 'a \<Rightarrow> error + string) \<Rightarrow> error + string" where
  "rangeIndexed xs body = pieces (map (\<lambda>(i, x). body i x) (enumerate 0 xs))"

text \<open>An index is printed in decimal.\<close>

definition printIndex :: "nat \<Rightarrow> string" where
  "printIndex i = Itoa (int i)"

record tmplContext =
  PackageName :: string
  Interfaces :: "Interface list"

text \<open>The template \<^verbatim>\<open>annotations\<close>.\<close>

definition tmplAnnotations :: "Annotation list \<Rightarrow> string" where
  "tmplAnnotations annotations =
     concat (map (\<lambda>annotation.
       ''// @'' @ annotation_Name annotation @ '' = '' @ annotation_Value annotation) annotations)"

text \<open>The comment at the head of the file: one block for every interface.\<close>

definition tmplSummary :: "Interface \<Rightarrow> string" where
  "tmplSummary iface =
     ''\<newline>// '' @ iface_Name iface
     @ (if iface_Methods iface \<noteq> [] then
          ''\<newline>//   Methods''
          @ concat (map (\<lambda>method. ''\<newline>//     '' @ method_Name method) (iface_Methods iface))
        else [])
     @ (if iface_Properties iface \<noteq> [] then
          ''\<newline>//   Properties''
          @ concat (map (\<lambda>prop. ''\<newline>//     '' @ prop_Name prop) (iface_Properties iface))
        else [])
     @ (if iface_Signals iface \<noteq> [] then
          ''\<newline>//   Signals''
          @ concat (map (\<lambda>signal. ''\<newline>//     '' @ signal_Name signal) (iface_Signals iface))
        else [])
     @ ''\<newline>//''"

definition tmplImports :: string where
  \<open>tmplImports =
     ''\<newline>\<newline>import (\<newline>'' @ TAB @ ''"log"\<newline>\<newline>'' @ TAB
     @ ''"github.com/godbus/dbus"\<newline>)\<newline>\<newline>const (\<newline>'' @ TAB
     @ ''methodPropertyGet = "org.freedesktop.DBus.Properties.Get"\<newline>'' @ TAB
     @ ''methodPropertySet = "org.freedesktop.DBus.Properties.Set"\<newline>)\<newline>\<newline>// Avoid error caused by unused log import\<newline>var _ = log.Printf\<newline>\<newline>// Interface is a DBus interface implementation.\<newline>type Interface interface {\<newline>''
     @ TAB @ ''iface() string\<newline>}\<newline>\<newline>// LookupInterface returns an interface for the named object.\<newline>func LookupInterface(object dbus.BusObject, iface string) Interface {\<newline>''
     @ TAB @ ''switch iface {''\<close>

definition tmplLookupInterfaceCase :: "printer \<Rightarrow> Interface \<Rightarrow> error + string" where
  "tmplLookupInterfaceCase p iface =
     pieces
       [lit (''\<newline>'' @ TAB @ ''case ''), ifaceNameConst p iface,
        lit ('':\<newline>'' @ TAB @ TAB @ ''return New''), ifaceType p iface,
        lit ''(object)'']"

definition tmplSignalInterface :: string where
  "tmplSignalInterface =
     ''\<newline>'' @ TAB @ ''default:\<newline>'' @ TAB @ TAB @ ''return nil\<newline>'' @ TAB
     @ ''}\<newline>}\<newline>\<newline>// Signal is a common interface for all signals.\<newline>type Signal interface {\<newline>''
     @ TAB @ ''Name()      string\<newline>'' @ TAB @ ''Interface() string\<newline>'' @ TAB
     @ ''Sender()    string\<newline>'' @ TAB
     @ ''Path()      dbus.ObjectPath\<newline>}\<newline>\<newline>// LookupSignal converts the given raw DBus signal into typed one or returns nil.\<newline>func LookupSignal(signal *dbus.Signal) Signal {\<newline>''
     @ TAB @ ''switch signal.Name {''"

definition tmplLookupSignalCase ::
    "printer \<Rightarrow> string \<Rightarrow> Interface \<Rightarrow> Signal \<Rightarrow> error + string" where
  \<open>tmplLookupSignalCase p packageName iface signal =
     pieces
       [lit (''\<newline>'' @ TAB @ ''case ''), ifaceNameConst p iface,
        lit ('' + "." + "'' @ signal_Name signal @ ''":''),
        rangeIndexed (signal_Args signal) (\<lambda>i argument. lit
          (''\<newline>'' @ TAB @ TAB @ ''v'' @ printIndex i @ '', ok := signal.Body['' @ printIndex i
           @ ''].('' @ arg_Type argument @ '')\<newline>'' @ TAB @ TAB @ ''if !ok {\<newline>''
           @ TAB @ TAB @ TAB @ ''log.Printf("['' @ packageName @ ''] ''
           @ argName argument ''v'' (int i) True @ '' is %T, not '' @ arg_Type argument
           @ ''", signal.Body['' @ printIndex i @ ''])\<newline>'' @ TAB @ TAB @ ''}'')),
        lit (''\<newline>'' @ TAB @ TAB @ ''return &''), signalType p iface signal,
        lit (''{\<newline>'' @ TAB @ TAB @ TAB @ ''sender: signal.Sender,\<newline>'' @ TAB @ TAB @ TAB
             @ ''path:   signal.Path,\<newline>'' @ TAB @ TAB @ TAB @ ''Body: ''),
        signalBodyType p iface signal, lit ''{'',
        rangeIndexed (signal_Args signal) (\<lambda>i argument. lit
          (''\<newline>'' @ TAB @ TAB @ TAB @ TAB @ argName argument ''v'' (int i) True
           @ '': v'' @ printIndex i @ '','')),
        lit (''\<newline>'' @ TAB @ TAB @ TAB @ ''},\<newline>'' @ TAB @ TAB @ ''}'')]\<close>

definition tmplAddMatchRule :: string where
  \<open>tmplAddMatchRule =
     ''\<newline>'' @ TAB @ ''default:\<newline>'' @ TAB @ TAB @ ''return nil\<newline>'' @ TAB
     @ ''}\<newline>}\<newline>\<newline>// AddMatchRule returns AddMatch rule for the given signal. \<newline>func AddMatchRule(sig Signal) string {\<newline>''
     @ TAB
     @ ''return "type='signal',interface='" + sig.Interface() + "',member='" + sig.Name() + "'"\<newline>}\<newline>\<newline>// Interface name constants.\<newline>const (''\<close>

definition tmplNameConst :: "printer \<Rightarrow> Interface \<Rightarrow> error + string" where
  \<open>tmplNameConst p iface =
     pieces
       [lit (''\<newline>'' @ TAB), ifaceNameConst p iface,
        lit ('' = "'' @ iface_Name iface @ ''"'')]\<close>

definition tmplMethod :: "printer \<Rightarrow> Interface \<Rightarrow> Method \<Rightarrow> error + string" where
  \<open>tmplMethod p iface method =
     pieces
       [lit (''\<newline>// '' @ methodType method @ '' calls '' @ iface_Name iface @ ''.''
             @ method_Name method @ '' method.'' @ tmplAnnotations (method_Annotations method)
             @ ''\<newline>func (o *''),
        ifaceType p iface,
        lit ('') '' @ methodType method @ ''('' @ joinMethodInArgs method @ '') (''
             @ joinMethodOutArgs method @ ''err error) {\<newline>'' @ TAB
             @ ''err = o.object.Call(''),
        ifaceNameConst p iface,
        lit ('' + "." + "'' @ method_Name method @ ''", 0, '' @ joinArgNames (method_In method)
             @ '').Store('' @ joinStoreArgs (method_Out method) @ '')\<newline>'' @ TAB
             @ ''return\<newline>}\<newline>'')]\<close>

definition tmplPropGet :: "printer \<Rightarrow> Interface \<Rightarrow> Property \<Rightarrow> error + string" where
  \<open>tmplPropGet p iface prop =
     pieces
       [lit (''\<newline>// '' @ propGetType prop @ '' gets '' @ iface_Name iface @ ''.''
             @ prop_Name prop @ '' property.'' @ tmplAnnotations (prop_Annotations prop)
             @ ''\<newline>func (o *''),
        ifaceType p iface,
        lit ('') '' @ propGetType prop @ ''() ('' @ propArgName prop @ '' ''
             @ arg_Type (prop_Arg prop) @ '', err error) {\<newline>'' @ TAB
             @ ''err = o.object.Call(methodPropertyGet, 0, ''),
        ifaceNameConst p iface,
        lit ('', "'' @ prop_Name prop @ ''").Store(&'' @ propArgName prop @ '')\<newline>'' @ TAB
             @ ''return\<newline>}'')]\<close>

definition tmplPropSet :: "printer \<Rightarrow> Interface \<Rightarrow> Property \<Rightarrow> error + string" where
  \<open>tmplPropSet p iface prop =
     pieces
       [lit (''\<newline>// '' @ propSetType prop @ '' sets '' @ iface_Name iface @ ''.''
             @ prop_Name prop @ '' property.'' @ tmplAnnotations (prop_Annotations prop)
             @ ''\<newline>func (o *''),
        ifaceType p iface,
        lit ('') '' @ propSetType prop @ ''('' @ propArgName prop @ '' ''
             @ arg_Type (prop_Arg prop) @ '') error {\<newline>'' @ TAB
             @ ''return o.object.Call(methodPropertySet, 0, ''),
        ifaceNameConst p iface,
        lit ('', "'' @ prop_Name prop @ ''", '' @ propArgName prop @ '').Store()\<newline>}'')]\<close>

text \<open>One round of the loop over the properties: the getter and the setter, each under its condition.\<close>

definition tmplProperty :: "printer \<Rightarrow> Interface \<Rightarrow> Property \<Rightarrow> error + string" where
  "tmplProperty p iface prop =
     pieces
       [if propNeedsGet iface prop then tmplPropGet p iface prop else lit [],
        if propNeedsSet iface prop then tmplPropSet p iface prop else lit [],
        lit ''\<newline>'']"

definition tmplSignal :: "printer \<Rightarrow> Interface \<Rightarrow> Signal \<Rightarrow> error + string" where
  \<open>tmplSignal p iface signal =
     pieces
       [lit ''\<newline>// '', signalType p iface signal,
        lit ('' represents '' @ iface_Name iface @ ''.'' @ signal_Name signal @ '' signal.''
             @ tmplAnnotations (signal_Annotations signal) @ ''\<newline>type ''),
        signalType p iface signal,
        lit ('' struct {\<newline>'' @ TAB @ ''sender string\<newline>'' @ TAB
             @ ''path   dbus.ObjectPath\<newline>'' @ TAB @ ''Body   ''),
        signalBodyType p iface signal,
        lit ''\<newline>}\<newline>\<newline>// Name returns the signal's name.\<newline>func (s *'',
        signalType p iface signal,
        lit ('') Name() string {\<newline>'' @ TAB @ ''return "'' @ signal_Name signal
             @ ''"\<newline>}\<newline>\<newline>// Interface returns the signal's interface.\<newline>func (s *''),
        signalType p iface signal,
        lit ('') Interface() string {\<newline>'' @ TAB @ ''return ''),
        ifaceNameConst p iface,
        lit ''\<newline>}\<newline>\<newline>// Sender returns the signal's sender unique name.\<newline>func (s *'',
        signalType p iface signal,
        lit ('') Sender() string {\<newline>'' @ TAB
             @ ''return s.sender\<newline>}\<newline>\<newline>// Path returns path that emitted the signal.\<newline>func (s *''),
        signalType p iface signal,
        lit ('') Path() dbus.ObjectPath {\<newline>'' @ TAB
             @ ''return s.path\<newline>}\<newline>\<newline>// ''),
        signalBodyType p iface signal,
        lit '' is body container.\<newline>type '',
        signalBodyType p iface signal,
        lit ('' struct {\<newline>'' @ TAB @ joinSignalArgs signal @ ''\<newline>}\<newline>'')]\<close>

text \<open>The declarations of one interface.\<close>

definition tmplInterface :: "printer \<Rightarrow> Interface \<Rightarrow> error + string" where
  \<open>tmplInterface p iface =
     pieces
       [lit ''\<newline>// '', ifaceNewType p iface,
        lit ('' creates and allocates '' @ iface_Name iface @ ''.\<newline>func ''),
        ifaceNewType p iface,
        lit ''(object dbus.BusObject) *'', ifaceType p iface,
        lit ('' {\<newline>'' @ TAB @ ''return &''), ifaceType p iface,
        lit ''{object}\<newline>}\<newline>\<newline>// '', ifaceType p iface,
        lit ('' implements '' @ iface_Name iface @ '' D-Bus interface.''
             @ tmplAnnotations (iface_Annotations iface) @ ''\<newline>type ''),
        ifaceType p iface,
        lit ('' struct {\<newline>'' @ TAB
             @ ''object dbus.BusObject\<newline>}\<newline>\<newline>// iface implements the Interface interface.\<newline>func (o *''),
        ifaceType p iface,
        lit ('') iface() string {\<newline>'' @ TAB @ ''return ''),
        ifaceNameConst p iface,
        lit ''\<newline>}\<newline>'',
        rangeOver (iface_Methods iface) (tmplMethod p iface),
        rangeOver (iface_Properties iface) (tmplProperty p iface),
        lit ''\<newline>'',
        rangeOver (iface_Signals iface) (tmplSignal p iface)]\<close>

text \<open>\<^verbatim>\<open>tmpl.Execute\<close> on the template \<^verbatim>\<open>srcTemplate\<close>.\<close>

definition execute :: "printer \<Rightarrow> tmplContext \<Rightarrow> error + string" where
  "execute p ctx =
     pieces
       [lit ''// Code generated by dbus-codegen-go. DO NOT EDIT.\<newline>//'',
        rangeOver (Interfaces ctx) (\<lambda>iface. lit (tmplSummary iface)),
        lit (''\<newline>package '' @ PackageName ctx @ tmplImports),
        rangeOver (Interfaces ctx) (tmplLookupInterfaceCase p),
        lit tmplSignalInterface,
        rangeOver (Interfaces ctx) (\<lambda>iface.
          rangeOver (iface_Signals iface) (tmplLookupSignalCase p (PackageName ctx) iface)),
        lit tmplAddMatchRule,
        rangeOver (Interfaces ctx) (tmplNameConst p),
        lit ''\<newline>)'',
        lit ''\<newline>'',
        rangeOver (Interfaces ctx) (tmplInterface p)]"

subsection \<open>Print\<close>

text \<open>
  What \<^verbatim>\<open>Print\<close> calls outside the program is a parameter of the model:
  \<^item> \<^verbatim>\<open>sort.Slice\<close>, which is not stable and whose algorithm depends on the Go release.
    It sees the slice through \<^verbatim>\<open>less(i, j)\<close> only, so the order it produces is a
    function of the keys: \<^term>\<open>sortSlice\<close> maps the keys to the old positions of the
    elements in their new order;
  \<^item> \<^verbatim>\<open>parser.ParseFile\<close>, which accepts a text or gives an error;
  \<^item> \<^verbatim>\<open>format.Node\<close>, which gives the formatted text of a text that parsed, or an error.
\<close>

record env =
  sortSlice :: "string list \<Rightarrow> nat list"
  parseFile :: "string \<Rightarrow> error option"
  formatNode :: "string \<Rightarrow> error + string"

definition sortSliceBy :: "env \<Rightarrow> ('a \<Rightarrow> string) \<Rightarrow> 'a list \<Rightarrow> 'a list" where
  "sortSliceBy e key xs = map (\<lambda>i. xs ! i) (sortSlice e (map key xs))"

text \<open>What \<^verbatim>\<open>sort.Slice\<close> promises: the elements are rearranged and the keys are in order.\<close>

definition sortSliceOK :: "env \<Rightarrow> bool" where
  "sortSliceOK e =
     (\<forall>ks. mset (sortSlice e ks) = mset [0..<length ks]
           \<and> sorted (map (\<lambda>i. ks ! i) (sortSlice e ks)))"

text \<open>
  \<^verbatim>\<open>prepareIfaces\<close> sorts the slice of the caller and then, in the loop over the
  interfaces, the three slices of every interface, all in place; the result is what
  the caller's slice holds afterwards. \<^term>\<open>prepareIface\<close> is the body of the loop.
\<close>

definition prepareIface :: "env \<Rightarrow> Interface \<Rightarrow> Interface" where
  "prepareIface e iface =
     iface
       \<lparr>iface_Methods := sortSliceBy e method_Name (iface_Methods iface),
        iface_Properties := sortSliceBy e prop_Name (iface_Properties iface),
        iface_Signals := sortSliceBy e signal_Name (iface_Signals iface)\<rparr>"

definition prepareIfaces :: "env \<Rightarrow> Interface list \<Rightarrow> Interface list" where
  "prepareIfaces e ifaces = map (prepareIface e) (sortSliceBy e iface_Name ifaces)"

text \<open>
  The writer \<^verbatim>\<open>out\<close> is the text written to it so far, and writing appends. The result
  of \<^verbatim>\<open>Print\<close> is its error, the writer, and the slice of interfaces of the caller as
  the call leaves it.
\<close>

record result =
  res_err :: "error option"
  res_out :: string
  res_ifaces :: "Interface list"

text \<open>The printer with its defaults, and the options applied to it in their order.\<close>

definition newPrinter :: "PrintOption list \<Rightarrow> printer" where
  "newPrinter opts =
     fold applyOption opts \<lparr>pkgName = ''dbusgen'', gofmt = True, prefixes = []\<rparr>"

definition Print :: "env \<Rightarrow> string \<Rightarrow> Interface list \<Rightarrow> PrintOption list \<Rightarrow> result" where
  "Print e out0 ifaces0 opts =
     (let p = newPrinter opts
      in if \<not> MatchString identRegexp (pkgName p) then
           \<lparr>res_err = Some (ErrorsNew ''package name is not valid''), res_out = out0, res_ifaces = ifaces0\<rparr>
         else if length ifaces0 = 0 then
           \<lparr>res_err = Some (ErrorsNew ''no interfaces given''), res_out = out0, res_ifaces = ifaces0\<rparr>
         else
           (let ifaces1 = prepareIfaces e ifaces0
            in case execute p \<lparr>PackageName = pkgName p, Interfaces = ifaces1\<rparr> of
                 Inl er \<Rightarrow> \<lparr>res_err = Some er, res_out = out0, res_ifaces = ifaces1\<rparr>
               | Inr buf \<Rightarrow>
                   (case parseFile e buf of
                      Some er \<Rightarrow> \<lparr>res_err = Some er, res_out = out0, res_ifaces = ifaces1\<rparr>
                    | None \<Rightarrow>
                        if gofmt p then
                          (case formatNode e buf of
                             Inl er \<Rightarrow> \<lparr>res_err = Some er, res_out = out0, res_ifaces = ifaces1\<rparr>
                           | Inr formatted \<Rightarrow>
                               \<lparr>res_err = None, res_out = out0 @ formatted, res_ifaces = ifaces1\<rparr>)
                        else \<lparr>res_err = None, res_out = out0 @ buf, res_ifaces = ifaces1\<rparr>)))"

text \<open>
  An environment to run examples in: the insertion sort that \<^verbatim>\<open>sort.Slice\<close> does on a
  short slice, a parser that accepts, and a formatter that leaves the text as it is.
\<close>

definition insertionSort :: "string list \<Rightarrow> nat list" where
  "insertionSort ks = sort_key (\<lambda>i. ks ! i) [0..<length ks]"

definition exampleEnv :: env where
  "exampleEnv =
     \<lparr>sortSlice = insertionSort, parseFile = (\<lambda>src. None), formatNode = (\<lambda>src. Inr src)\<rparr>"

section \<open>Package dbusgen: the earlier argument naming\<close>

text \<open>\<^verbatim>\<open>_([a-zA-Z0-9])\<close>\<close>

definition varRegexp_dbusgen :: regexp where
  "varRegexp_dbusgen =
     \<lparr>beginText = False, items = [Rep One (\<lambda>c. c = CHR ''_''), Rep One isAlnum]\<rparr>"

definition keywords_dbusgen :: "string list" where
  "keywords_dbusgen =
     [''break'', ''default'', ''func'', ''interface'', ''select'',
      ''case'', ''defer'', ''go'', ''map'', ''struct'',
      ''chan'', ''else'', ''goto'', ''package'', ''switch'',
      ''const'', ''fallthrough'', ''if'', ''range'', ''type'',
      ''continue'', ''for'', ''import'', ''return'', ''var'']"

fun isKeywordLoop :: "string list \<Rightarrow> string \<Rightarrow> bool" where
  "isKeywordLoop [] s = False"
| "isKeywordLoop (k # ks) s = (if s = k then True else isKeywordLoop ks s)"

definition isKeyword_dbusgen :: "string \<Rightarrow> bool" where
  "isKeyword_dbusgen s = isKeywordLoop keywords_dbusgen s"

record arg =
  arg_name :: string
  arg_kind :: string

text \<open>The local variable \<^verbatim>\<open>name\<close> of \<^verbatim>\<open>newArg\<close>.\<close>

definition newArg_name :: "string \<Rightarrow> string \<Rightarrow> int \<Rightarrow> string" where
  "newArg_name identifier prefix i =
     (if identifier = [] then prefix @ Itoa i
      else if isKeyword_dbusgen identifier then prefix @ Title identifier
      else ToLower (take 1 identifier) @
           ReplaceAllStringFunc varRegexp_dbusgen (drop 1 identifier)
             (\<lambda>s. Title (drop 1 s)))"

text \<open>
  \<^verbatim>\<open>newSig\<close> is not among the sources and is a parameter: it gives the kinds of a
  signature, and \<^verbatim>\<open>newSig(signature)[0]\<close> panics when there is none.
\<close>

definition newArg :: "(string \<Rightarrow> string list) \<Rightarrow> string \<Rightarrow> string \<Rightarrow> string \<Rightarrow> int \<Rightarrow> error + arg" where
  "newArg newSig identifier signature prefix i =
     (let name = newArg_name identifier prefix i
      in case newSig signature of
           [] \<Rightarrow> Inl PanicIndexOutOfRange
         | k # _ \<Rightarrow> Inr \<lparr>arg_name = name, arg_kind = k\<rparr>)"

section \<open>Command dbus-codegen-go: merging\<close>

text \<open>The inner loop of \<^verbatim>\<open>merge\<close>: is there an interface of that name in \<^verbatim>\<open>curr\<close>
  (\<open>cur\<close> below; \<open>nxt\<close> is \<^verbatim>\<open>next\<close>).\<close>

fun mergeFound :: "Interface list \<Rightarrow> Interface \<Rightarrow> bool" where
  "mergeFound [] ifn = False"
| "mergeFound (ifc # rest) ifn =
     (if iface_Name ifc = iface_Name ifn then True else mergeFound rest ifn)"

fun merge :: "Interface list \<Rightarrow> Interface list \<Rightarrow> Interface list" where
  "merge cur [] = cur"
| "merge cur (ifn # nxt) =
     merge (if \<not> mergeFound cur ifn then cur @ [ifn] else cur) nxt"

section \<open>Notions of the specification, and example data\<close>

subsection \<open>Merging\<close>

text \<open>
  An incoming interface is kept when its name is neither a name of the existing
  sequence nor the name of an earlier incoming interface; \<open>j\<close> is its position in the
  incoming sequence.
\<close>

definition keptIndex :: "Interface list \<Rightarrow> Interface list \<Rightarrow> nat \<Rightarrow> bool" where
  "keptIndex cur nxt j = (iface_Name (nxt ! j) \<notin> iface_Name ` (set cur \<union> set (take j nxt)))"

definition fooA :: Interface where
  "fooA = \<lparr>iface_Name = ''org.example.Foo'', iface_Methods = [], iface_Properties = [],
           iface_Signals = [], iface_Annotations = []\<rparr>"

definition fooB :: Interface where
  "fooB = \<lparr>iface_Name = ''org.example.Foo'', iface_Methods = [], iface_Properties = [],
           iface_Signals = [],
           iface_Annotations = [\<lparr>annotation_Name = ''doc'', annotation_Value = ''second''\<rparr>]\<rparr>"

definition barC :: Interface where
  "barC = \<lparr>iface_Name = ''org.example.Bar'', iface_Methods = [], iface_Properties = [],
           iface_Signals = [], iface_Annotations = []\<rparr>"

subsection \<open>Identifiers of the target language\<close>

text \<open>
  An identifier of Go has the shape of a letter followed by letters and digits, and the
  underscore counts as a letter (here for ASCII text): \<^term>\<open>goIdentifier\<close> is this
  shape, which the keywords have as well. A keyword is reserved and is not an
  identifier that a program can declare: a legal identifier has the shape and is no
  keyword.
\<close>

definition identChar :: "char \<Rightarrow> bool" where
  "identChar c = (isLetter c \<or> isDigit c \<or> c = CHR ''_'')"

definition goIdentifier :: "string \<Rightarrow> bool" where
  "goIdentifier s =
     (case s of [] \<Rightarrow> False | c # cs \<Rightarrow> (isLetter c \<or> c = CHR ''_'') \<and> list_all identChar cs)"

definition legalIdentifier :: "string \<Rightarrow> bool" where
  "legalIdentifier s = (goIdentifier s \<and> \<not> Lookup_IsKeyword s)"

text \<open>
  The package names that \<^verbatim>\<open>Print\<close> lets through: a letter, which the underscore is not
  here, followed by letters, digits and underscores.
\<close>

definition packageNameShape :: "string \<Rightarrow> bool" where
  "packageNameShape s =
     (case s of [] \<Rightarrow> False | c # cs \<Rightarrow> isLetter c \<and> list_all identChar cs)"

subsection \<open>Interface sets in different orders\<close>

text \<open>
  Two interfaces that differ in the order of their methods, of their properties and of
  their signals only; and two sequences that hold such interfaces, in any order.
\<close>

definition permutedIface :: "Interface \<Rightarrow> Interface \<Rightarrow> bool" where
  "permutedIface a b =
     (iface_Name a = iface_Name b \<and> iface_Annotations a = iface_Annotations b
      \<and> mset (iface_Methods a) = mset (iface_Methods b)
      \<and> mset (iface_Properties a) = mset (iface_Properties b)
      \<and> mset (iface_Signals a) = mset (iface_Signals b))"

definition permutedIfaces :: "Interface list \<Rightarrow> Interface list \<Rightarrow> bool" where
  "permutedIfaces xs ys = (\<exists>zs. mset zs = mset xs \<and> list_all2 permutedIface zs ys)"

text \<open>
  The names that key the sets of the model: no two interfaces of the same name, and in
  an interface no two methods, no two properties and no two signals of the same name.
\<close>

definition uniqueMembers :: "Interface \<Rightarrow> bool" where
  "uniqueMembers iface =
     (distinct (map method_Name (iface_Methods iface))
      \<and> distinct (map prop_Name (iface_Properties iface))
      \<and> distinct (map signal_Name (iface_Signals iface)))"

definition uniqueNames :: "Interface list \<Rightarrow> bool" where
  "uniqueNames ifaces =
     (distinct (map iface_Name ifaces) \<and> list_all uniqueMembers ifaces)"

text \<open>All names in order, as \<^verbatim>\<open>prepareIfaces\<close> leaves them.\<close>

definition sortedMembers :: "Interface \<Rightarrow> bool" where
  "sortedMembers iface =
     (sorted (map method_Name (iface_Methods iface))
      \<and> sorted (map prop_Name (iface_Properties iface))
      \<and> sorted (map signal_Name (iface_Signals iface)))"

definition sortedNames :: "Interface list \<Rightarrow> bool" where
  "sortedNames ifaces = (sorted (map iface_Name ifaces) \<and> list_all sortedMembers ifaces)"

subsection \<open>Example interfaces\<close>

definition methodPing :: Method where
  "methodPing = \<lparr>method_Name = ''Ping'', method_In = [], method_Out = [],
                  method_Annotations = []\<rparr>"

definition methodEcho :: Method where
  "methodEcho =
     \<lparr>method_Name = ''Echo'',
      method_In = [\<lparr>arg_Name = ''text_in'', arg_Type = ''string''\<rparr>],
      method_Out = [\<lparr>arg_Name = '''', arg_Type = ''string''\<rparr>],
      method_Annotations = []\<rparr>"

text \<open>The same interface twice, with its two methods in the one order and in the other.\<close>

definition peerPE :: Interface where
  "peerPE = \<lparr>iface_Name = ''org.example.Peer'', iface_Methods = [methodPing, methodEcho],
             iface_Properties = [], iface_Signals = [], iface_Annotations = []\<rparr>"

definition peerEP :: Interface where
  "peerEP = \<lparr>iface_Name = ''org.example.Peer'', iface_Methods = [methodEcho, methodPing],
             iface_Properties = [], iface_Signals = [], iface_Annotations = []\<rparr>"

text \<open>A second interface of the name \<^verbatim>\<open>org.example.Foo\<close>, with a method.\<close>

definition fooM :: Interface where
  "fooM = \<lparr>iface_Name = ''org.example.Foo'', iface_Methods = [methodPing],
           iface_Properties = [], iface_Signals = [], iface_Annotations = []\<rparr>"

subsection \<open>The rules of the identifier deriver\<close>

text \<open>
  The four rules of the specification, in its words. Rule 2 upper-cases the character
  that follows a run of separators and deletes the separators; \<^term>\<open>camelCaseFrom\<close>
  carries whether a run has just been passed. Rule 3 upper-cases the first character.
  Rule 4 puts the role prefix before a reserved word and capitalizes again.
\<close>

fun camelCaseFrom :: "bool \<Rightarrow> string \<Rightarrow> string" where
  "camelCaseFrom boundary [] = []"
| "camelCaseFrom boundary (c # cs) =
     (if c = CHR ''_'' then camelCaseFrom True cs
      else (if boundary then toUpperChar c else c) # camelCaseFrom False cs)"

definition camelCase :: "string \<Rightarrow> string" where
  "camelCase s = camelCaseFrom False s"

definition upperFirst :: "string \<Rightarrow> string" where
  "upperFirst s = (case s of [] \<Rightarrow> [] | c # cs \<Rightarrow> toUpperChar c # cs)"

definition derive :: "string \<Rightarrow> string \<Rightarrow> int \<Rightarrow> bool \<Rightarrow> string" where
  "derive rawName rolePrefix positionalIndex exported =
     (let ident = (if rawName = [] then rolePrefix @ Itoa positionalIndex
                   else camelCase rawName);
          ident = (if exported then upperFirst ident else ident)
      in if Lookup_IsKeyword ident then rolePrefix @ upperFirst ident else ident)"

text \<open>
  A raw name in snake case or camel case: letters, digits and underscores, the first
  character neither an upper-case letter nor an underscore, the last no underscore.
\<close>

definition snakeOrCamel :: "string \<Rightarrow> bool" where
  "snakeOrCamel s =
     (s \<noteq> [] \<and> list_all identChar s \<and> \<not> isUpper (hd s) \<and> hd s \<noteq> CHR ''_''
      \<and> last s \<noteq> CHR ''_'')"

text \<open>Two or more underscores directly before a letter or a digit.\<close>

fun doubledSeparator :: "string \<Rightarrow> bool" where
  "doubledSeparator (a # b # c # r) =
     ((a = CHR ''_'' \<and> b = CHR ''_'' \<and> isAlnum c) \<or> doubledSeparator (b # c # r))"
| "doubledSeparator r = False"

text \<open>A keyword with its first letter in upper case, as \<^verbatim>\<open>Type\<close>.\<close>

definition capitalizedKeyword :: "string \<Rightarrow> bool" where
  "capitalizedKeyword s =
     (\<not> Lookup_IsKeyword s \<and> Lookup_IsKeyword (ToLower (take 1 s) @ drop 1 s))"

text \<open>The class of the separator in an argument name.\<close>

abbreviation (input) underscore :: "char \<Rightarrow> bool" where
  "underscore \<equiv> (\<lambda>c. c = CHR ''_'')"

subsection \<open>Examples for the interface type, the accessors and the parser\<close>

definition comOrgExampleFoo :: Interface where
  "comOrgExampleFoo =
     \<lparr>iface_Name = ''com.org.example.Foo'', iface_Methods = [], iface_Properties = [],
      iface_Signals = [], iface_Annotations = []\<rparr>"

definition orgExampleFoo :: Interface where
  "orgExampleFoo =
     \<lparr>iface_Name = ''org.example.Foo'', iface_Methods = [], iface_Properties = [],
      iface_Signals = [], iface_Annotations = []\<rparr>"

text \<open>A method \<^verbatim>\<open>getFoo\<close> next to a readable and writable property \<^verbatim>\<open>Foo\<close>.\<close>

definition methodGetFoo :: Method where
  "methodGetFoo = \<lparr>method_Name = ''getFoo'', method_In = [], method_Out = [],
                    method_Annotations = []\<rparr>"

definition propFoo :: Property where
  "propFoo = \<lparr>prop_Name = ''Foo'', prop_Arg = \<lparr>arg_Name = ''value'', arg_Type = ''string''\<rparr>,
              prop_Read = True, prop_Write = True, prop_Annotations = []\<rparr>"

definition ifaceGetFoo :: Interface where
  "ifaceGetFoo =
     \<lparr>iface_Name = ''org.example.Foo'', iface_Methods = [methodGetFoo],
      iface_Properties = [propFoo], iface_Signals = [], iface_Annotations = []\<rparr>"

text \<open>
  An interface whose name gives a type name that is no identifier, and an environment
  whose parser refuses the text.
\<close>

definition fooDashBar :: Interface where
  "fooDashBar =
     \<lparr>iface_Name = ''foo-bar'', iface_Methods = [], iface_Properties = [],
      iface_Signals = [], iface_Annotations = []\<rparr>"

definition refusingEnv :: env where
  "refusingEnv =
     \<lparr>sortSlice = insertionSort,
      parseFile = (\<lambda>src. Some (ParseError ''expected ;, found -'')),
      formatNode = (\<lambda>src. Inr src)\<rparr>"

text \<open>An environment whose parser refuses a keyword in the place of the package name.\<close>

definition keywordRefusingEnv :: env where
  "keywordRefusingEnv =
     \<lparr>sortSlice = insertionSort,
      parseFile = (\<lambda>src. Some (ParseError ''expected IDENT, found type'')),
      formatNode = (\<lambda>src. Inr src)\<rparr>"

section \<open>Properties\<close>

subsection \<open>Merging interface sequences\<close>

lemma mergeFound_iff: "mergeFound cur ifn \<longleftrightarrow> iface_Name ifn \<in> iface_Name ` set cur"
  by (induction cur) auto

lemma merge_snoc:
  "merge cur (nxt @ [ifn]) =
     (if mergeFound (merge cur nxt) ifn then merge cur nxt else merge cur nxt @ [ifn])"
  by (induction nxt arbitrary: cur) auto

lemma merge_names: "iface_Name ` set (merge cur nxt) = iface_Name ` (set cur \<union> set nxt)"
  by (induction nxt arbitrary: cur) (auto simp: mergeFound_iff)

lemma merge_indices:
  "merge cur nxt = cur @ map (\<lambda>j. nxt ! j) (filter (keptIndex cur nxt) [0..<length nxt])"
proof (induction nxt rule: rev_induct)
  case Nil
  show ?case by simp
next
  case (snoc ifn nxt)
  have same: "filter (keptIndex cur (nxt @ [ifn])) [0..<length nxt]
        = filter (keptIndex cur nxt) [0..<length nxt]"
    by (rule filter_cong) (auto simp: keptIndex_def nth_append)
  have mp: "map (\<lambda>j. (nxt @ [ifn]) ! j) (filter (keptIndex cur nxt) [0..<length nxt])
        = map (\<lambda>j. nxt ! j) (filter (keptIndex cur nxt) [0..<length nxt])"
    by (rule map_cong) (auto simp: nth_append)
  have last: "keptIndex cur (nxt @ [ifn]) (length nxt) \<longleftrightarrow> \<not> mergeFound (merge cur nxt) ifn"
    by (simp add: keptIndex_def mergeFound_iff merge_names)
  show ?case
    unfolding merge_snoc using snoc.IH same mp last by simp
qed

lemma merge_distinct_incoming:
  "distinct (map iface_Name nxt) \<Longrightarrow>
     merge cur nxt = cur @ filter (\<lambda>ifn. iface_Name ifn \<notin> iface_Name ` set cur) nxt"
proof (induction nxt arbitrary: cur)
  case Nil
  show ?case by simp
next
  case (Cons ifn nxt)
  have "filter (\<lambda>i. iface_Name i \<notin> iface_Name ` set (cur @ [ifn])) nxt
      = filter (\<lambda>i. iface_Name i \<notin> iface_Name ` set cur) nxt"
    using Cons.prems by (intro filter_cong) (auto simp: image_iff)
  with Cons show ?case by (simp add: mergeFound_iff)
qed

lemma merge_distinct_names:
  "distinct (map iface_Name cur) \<Longrightarrow> distinct (map iface_Name (merge cur nxt))"
  by (induction nxt arbitrary: cur) (auto simp: mergeFound_iff)

lemma merge_keeps_existing: "x \<in> set cur \<Longrightarrow> x \<in> set (merge cur nxt)"
  by (induction nxt arbitrary: cur) auto

lemma filter_unique_key:
  "distinct (map f xs) \<Longrightarrow> x \<in> set xs \<Longrightarrow> filter (\<lambda>y. f y = f x) xs = [x]"
proof (induction xs)
  case Nil
  then show ?case by simp
next
  case (Cons a xs)
  show ?case
  proof (cases "a = x")
    case True
    have "filter (\<lambda>y. f y = f x) xs = []"
      using Cons.prems True by (auto simp: filter_empty_conv image_iff)
    with True show ?thesis by simp
  next
    case False
    with Cons show ?thesis by auto
  qed
qed

text \<open>
  C2, as the code has it. \<^verbatim>\<open>merge\<close> returns the existing sequence unchanged, followed by
  the incoming interfaces whose name occurs neither in the existing sequence nor
  earlier in the incoming sequence, in their incoming order. When the names of the
  incoming sequence are pairwise different, these are exactly the incoming interfaces
  whose name does not occur in the existing sequence. When the names of the existing
  sequence are pairwise different, the result has exactly one interface of each of
  these names, the existing one.
\<close>

theorem merge_first_seen_wins:
  "merge cur nxt = cur @ map (\<lambda>j. nxt ! j) (filter (keptIndex cur nxt) [0..<length nxt])
   \<and> (distinct (map iface_Name nxt) \<longrightarrow>
        merge cur nxt = cur @ filter (\<lambda>ifn. iface_Name ifn \<notin> iface_Name ` set cur) nxt)
   \<and> (distinct (map iface_Name cur) \<longrightarrow>
        (\<forall>ifc \<in> set cur. filter (\<lambda>i. iface_Name i = iface_Name ifc) (merge cur nxt) = [ifc]))"
  using merge_indices merge_distinct_incoming merge_distinct_names merge_keeps_existing
    filter_unique_key [where f = iface_Name and xs = "merge cur nxt"]
  by metis

text \<open>
  The theorem at an existing sequence and an incoming sequence that both have
  \<^verbatim>\<open>org.example.Foo\<close>: the existing one stays, the incoming one is dropped.
\<close>

theorem merge_first_seen_wins_witness:
  "distinct (map iface_Name [barC, fooB])
   \<and> distinct (map iface_Name [fooA])
   \<and> merge [fooA] [barC, fooB] = [fooA, barC]
   \<and> filter (\<lambda>i. iface_Name i = iface_Name fooA) (merge [fooA] [barC, fooB]) = [fooA]"
proof -
  have d1: "distinct (map iface_Name [barC, fooB])"
    by (simp add: barC_def fooB_def)
  have d2: "distinct (map iface_Name [fooA])"
    by simp
  have m: "merge [fooA] [barC, fooB]
      = [fooA] @ filter (\<lambda>ifn. iface_Name ifn \<notin> iface_Name ` set [fooA]) [barC, fooB]"
    using merge_first_seen_wins [of "[fooA]" "[barC, fooB]"] d1 by blast
  have "filter (\<lambda>ifn. iface_Name ifn \<notin> iface_Name ` set [fooA]) [barC, fooB] = [barC]"
    by (simp add: barC_def fooB_def fooA_def)
  with m have m: "merge [fooA] [barC, fooB] = [fooA, barC]"
    by simp
  have f: "filter (\<lambda>i. iface_Name i = iface_Name fooA) (merge [fooA] [barC, fooB]) = [fooA]"
  proof -
    have "fooA \<in> set [fooA]" by simp
    with merge_first_seen_wins [of "[fooA]" "[barC, fooB]"] d2 show ?thesis by blast
  qed
  from d1 d2 m f show ?thesis by blast
qed

text \<open>
  The claim as it is written fails when two incoming interfaces have the same name:
  the second is dropped though its name does not occur in the existing sequence.
\<close>

theorem merge_incoming_duplicate_counterexample:
  "merge [] [fooA, fooB] = [fooA]
   \<and> [] @ filter (\<lambda>ifn. iface_Name ifn \<notin> iface_Name ` set []) [fooA, fooB] = [fooA, fooB]
   \<and> merge [] [fooA, fooB]
       \<noteq> [] @ filter (\<lambda>ifn. iface_Name ifn \<notin> iface_Name ` set []) [fooA, fooB]"
  by (simp add: fooA_def fooB_def)

subsection \<open>Sorting a slice\<close>

lemma mset_sortSliceBy:
  assumes "sortSliceOK e"
  shows "mset (sortSliceBy e key xs) = mset xs"
proof -
  have "mset (sortSlice e (map key xs)) = mset [0..<length xs]"
    using assms by (simp add: sortSliceOK_def)
  then have "mset (map (\<lambda>i. xs ! i) (sortSlice e (map key xs)))
      = mset (map (\<lambda>i. xs ! i) [0..<length xs])"
    by (metis mset_map)
  then show ?thesis
    by (simp add: sortSliceBy_def map_nth)
qed

lemma sortSlice_in_range:
  assumes "sortSliceOK e" and "i \<in> set (sortSlice e ks)"
  shows "i < length ks"
proof -
  have "set (sortSlice e ks) = set [0..<length ks]"
    using assms(1) by (metis sortSliceOK_def mset_eq_setD)
  with assms(2) show ?thesis by simp
qed

lemma sorted_sortSliceBy:
  assumes "sortSliceOK e"
  shows "sorted (map key (sortSliceBy e key xs))"
proof -
  have "map key (sortSliceBy e key xs)
      = map (\<lambda>i. map key xs ! i) (sortSlice e (map key xs))"
    unfolding sortSliceBy_def map_map
  proof (rule map_cong [OF refl])
    fix i assume "i \<in> set (sortSlice e (map key xs))"
    then have "i < length xs"
      using sortSlice_in_range [OF assms, of i "map key xs"] by simp
    then show "(key \<circ> (\<lambda>i. xs ! i)) i = map key xs ! i" by simp
  qed
  then show ?thesis
    using assms by (simp add: sortSliceOK_def)
qed

lemma sorted_key_unique:
  assumes "mset ys = mset xs" and "sorted (map f ys)" and "distinct (map f xs)"
  shows "ys = sort_key f xs"
proof (rule properties_for_sort_key [symmetric])
  show "mset ys = mset xs" by fact
  show "sorted (map f ys)" by fact
  fix k assume k: "k \<in> set ys"
  have dy: "distinct (map f ys)"
    using assms(1,3) by (metis mset_eq_imp_distinct_iff mset_map)
  have kx: "k \<in> set xs"
    using k assms(1) by (metis mset_eq_setD)
  have "filter (\<lambda>x. f k = f x) ys = [k]"
    using filter_unique_key [OF dy k] by (simp add: eq_commute)
  moreover have "filter (\<lambda>x. f k = f x) xs = [k]"
    using filter_unique_key [OF assms(3) kx] by (simp add: eq_commute)
  ultimately show "filter (\<lambda>x. f k = f x) ys = filter (\<lambda>x. f k = f x) xs"
    by simp
qed

lemma sortSliceBy_unique:
  assumes "sortSliceOK e" and "distinct (map key xs)"
  shows "sortSliceBy e key xs = sort_key key xs"
  using sorted_key_unique [OF mset_sortSliceBy [OF assms(1)] sorted_sortSliceBy [OF assms(1)] assms(2)] .

lemma sort_key_mset_cong:
  assumes "mset xs = mset ys" and "distinct (map key xs)"
  shows "sort_key key xs = sort_key key ys"
proof -
  have "distinct (map key ys)"
    using assms by (metis mset_eq_imp_distinct_iff mset_map)
  then have "sort_key key xs = sort_key key ys"
    using sorted_key_unique [of "sort_key key xs" ys key] assms(1) by simp
  then show ?thesis .
qed

lemma sortSliceBy_perm:
  assumes "sortSliceOK e" and "mset xs = mset ys" and "distinct (map key xs)"
  shows "sortSliceBy e key xs = sortSliceBy e key ys"
proof -
  have "distinct (map key ys)"
    using assms(2,3) by (metis mset_eq_imp_distinct_iff mset_map)
  then show ?thesis
    using sortSliceBy_unique [OF assms(1)] assms(3) sort_key_mset_cong [OF assms(2,3)]
    by metis
qed

lemma sortSliceBy_sorted_id:
  assumes "sortSliceOK e" and "sorted (map key xs)" and "distinct (map key xs)"
  shows "sortSliceBy e key xs = xs"
  using sortSliceBy_unique [OF assms(1,3)] sorted_key_unique [OF refl assms(2,3)] by simp

subsection \<open>The checks of Print\<close>

lemma matchHere_star_end:
  "matchHere [Rep Star p, EndText] s \<noteq> None \<longleftrightarrow> list_all p s"
  by (induction s) (auto split: option.splits)

lemma MatchString_identRegexp:
  "MatchString identRegexp s \<longleftrightarrow>
     (case s of [] \<Rightarrow> False | c # cs \<Rightarrow> isLetter c \<and> list_all identChar cs)"
proof (cases s)
  case Nil
  then show ?thesis by (simp add: MatchString_def identRegexp_def)
next
  case (Cons c cs)
  have eq: "(\<lambda>c. isAlnum c \<or> c = CHR ''_'') = identChar"
    by (auto simp: identChar_def isAlnum_def)
  show ?thesis
    using matchHere_star_end [of identChar cs]
    by (auto simp: Cons MatchString_def identRegexp_def eq)
qed

lemma MatchString_identRegexp_goIdentifier:
  "MatchString identRegexp s \<Longrightarrow> goIdentifier s"
  by (auto simp: MatchString_identRegexp goIdentifier_def split: list.splits)

lemma space_not_identChar: "\<not> identChar (CHR '' '')" "\<not> isLetter (CHR '' '')"
  by (simp_all add: identChar_def isLetter_def isLower_def isUpper_def isDigit_def)

lemma MatchString_identRegexp_no_space:
  "MatchString identRegexp s \<Longrightarrow> CHR '' '' \<notin> set s"
  using space_not_identChar
  by (auto simp: MatchString_identRegexp list_all_iff split: list.splits)

lemma packageNameShape_iff: "packageNameShape s \<longleftrightarrow> MatchString identRegexp s"
  by (simp add: packageNameShape_def MatchString_identRegexp)

lemma legalIdentifier_or_keyword:
  "\<not> legalIdentifier s \<Longrightarrow> \<not> Lookup_IsKeyword s \<Longrightarrow> \<not> goIdentifier s"
  by (simp add: legalIdentifier_def)

text \<open>
  C3, as the code has it. \<^verbatim>\<open>Print\<close> fails with the error \<^verbatim>\<open>package name is not valid\<close>
  when the package name is not a letter followed by letters, digits and underscores:
  so when it is not a legal identifier and not a keyword either, and so when it
  contains a space. With a package name of that shape it fails with the error
  \<^verbatim>\<open>no interfaces given\<close> when it is given no interface. In both cases the result is
  the error alone: nothing is written, the interfaces are not touched, and no function
  of the environment has been called, neither the sort nor the parser nor the
  formatter: the result is the same in every environment.
\<close>

theorem Print_rejects_configuration:
  "(\<not> packageNameShape (pkgName (newPrinter opts))
      \<or> (\<not> legalIdentifier (pkgName (newPrinter opts))
           \<and> \<not> Lookup_IsKeyword (pkgName (newPrinter opts)))
      \<or> CHR '' '' \<in> set (pkgName (newPrinter opts))
      \<longrightarrow> Print e out0 ifaces0 opts =
            \<lparr>res_err = Some (ErrorsNew ''package name is not valid''),
             res_out = out0, res_ifaces = ifaces0\<rparr>)
   \<and> (packageNameShape (pkgName (newPrinter opts)) \<and> ifaces0 = [] \<longrightarrow>
         Print e out0 ifaces0 opts =
            \<lparr>res_err = Some (ErrorsNew ''no interfaces given''),
             res_out = out0, res_ifaces = ifaces0\<rparr>)"
  using MatchString_identRegexp_goIdentifier [of "pkgName (newPrinter opts)"]
    MatchString_identRegexp_no_space [of "pkgName (newPrinter opts)"]
    legalIdentifier_or_keyword [of "pkgName (newPrinter opts)"]
  by (auto simp: Print_def Let_def packageNameShape_iff)

text \<open>
  The theorem at the package name \<^verbatim>\<open>my package\<close>, which is no legal identifier and no
  keyword, and at the empty sequence with the package name that is the default.
\<close>

theorem Print_rejects_configuration_witness:
  "CHR '' '' \<in> set (pkgName (newPrinter [WithPackageName ''my package'']))
   \<and> \<not> legalIdentifier (pkgName (newPrinter [WithPackageName ''my package'']))
   \<and> \<not> Lookup_IsKeyword (pkgName (newPrinter [WithPackageName ''my package'']))
   \<and> Print exampleEnv [] [fooA] [WithPackageName ''my package''] =
        \<lparr>res_err = Some (ErrorsNew ''package name is not valid''),
         res_out = [], res_ifaces = [fooA]\<rparr>
   \<and> packageNameShape (pkgName (newPrinter []))
   \<and> Print exampleEnv [] [] [] =
        \<lparr>res_err = Some (ErrorsNew ''no interfaces given''),
         res_out = [], res_ifaces = []\<rparr>"
proof -
  have sp: "CHR '' '' \<in> set (pkgName (newPrinter [WithPackageName ''my package'']))"
    by (simp add: newPrinter_def)
  have nl: "\<not> legalIdentifier (pkgName (newPrinter [WithPackageName ''my package'']))"
    and nk: "\<not> Lookup_IsKeyword (pkgName (newPrinter [WithPackageName ''my package'']))"
    and sh: "packageNameShape (pkgName (newPrinter []))"
    by code_simp+
  have a: "Print exampleEnv [] [fooA] [WithPackageName ''my package''] =
        \<lparr>res_err = Some (ErrorsNew ''package name is not valid''),
         res_out = [], res_ifaces = [fooA]\<rparr>"
    using Print_rejects_configuration [of "[WithPackageName ''my package'']" exampleEnv "[]" "[fooA]"]
      nl nk
    by blast
  have b: "Print exampleEnv [] [] [] =
        \<lparr>res_err = Some (ErrorsNew ''no interfaces given''),
         res_out = [], res_ifaces = []\<rparr>"
    using Print_rejects_configuration [of "[]" exampleEnv "[]" "[]"] sh by blast
  from sp nl nk a sh b show ?thesis by blast
qed

lemma Print_parser_refuses:
  assumes "MatchString identRegexp (pkgName (newPrinter opts))"
    and "ifaces0 \<noteq> []"
    and "execute (newPrinter opts)
           \<lparr>PackageName = pkgName (newPrinter opts), Interfaces = prepareIfaces e ifaces0\<rparr>
         = Inr buf"
    and "parseFile e buf = Some er"
  shows "Print e out0 ifaces0 opts =
           \<lparr>res_err = Some er, res_out = out0, res_ifaces = prepareIfaces e ifaces0\<rparr>"
  using assms by (simp add: Print_def Let_def)

lemma example_type_prepareIfaces:
  "prepareIfaces keywordRefusingEnv [peerPE, barC] = [barC, peerEP]"
  by code_simp

lemma example_type_execute:
  "\<not> isl (execute (newPrinter [WithPackageName ''type''])
           \<lparr>PackageName = pkgName (newPrinter [WithPackageName ''type'']),
            Interfaces = prepareIfaces keywordRefusingEnv [peerPE, barC]\<rparr>)"
  by code_simp

text \<open>
  The claim as it is written fails at a package name that is a keyword. The name
  \<^verbatim>\<open>type\<close> is no legal identifier, and it has the shape that \<^verbatim>\<open>Print\<close> tests: \<^verbatim>\<open>Print\<close>
  sorts the interfaces of the caller and renders the template, and the run fails
  in the parser, with the error of the parser.
\<close>

theorem Print_keyword_package_counterexample:
  "\<not> legalIdentifier (pkgName (newPrinter [WithPackageName ''type'']))
   \<and> Print keywordRefusingEnv [] [peerPE, barC] [WithPackageName ''type''] =
        \<lparr>res_err = Some (ParseError ''expected IDENT, found type''), res_out = [],
         res_ifaces = [barC, peerEP]\<rparr>
   \<and> [barC, peerEP] \<noteq> [peerPE, barC]"
proof -
  have nl: "\<not> legalIdentifier (pkgName (newPrinter [WithPackageName ''type'']))"
    by code_simp
  have m: "MatchString identRegexp (pkgName (newPrinter [WithPackageName ''type'']))"
    by code_simp
  obtain buf where b: "execute (newPrinter [WithPackageName ''type''])
           \<lparr>PackageName = pkgName (newPrinter [WithPackageName ''type'']),
            Interfaces = prepareIfaces keywordRefusingEnv [peerPE, barC]\<rparr> = Inr buf"
    using example_type_execute by (metis sum.collapse(2))
  have p: "parseFile keywordRefusingEnv buf = Some (ParseError ''expected IDENT, found type'')"
    by (simp add: keywordRefusingEnv_def)
  have r: "Print keywordRefusingEnv [] [peerPE, barC] [WithPackageName ''type''] =
        \<lparr>res_err = Some (ParseError ''expected IDENT, found type''), res_out = [],
         res_ifaces = [barC, peerEP]\<rparr>"
    using Print_parser_refuses [OF m _ b p] by (simp add: example_type_prepareIfaces)
  have ne: "[barC, peerEP] \<noteq> [peerPE, barC]"
    by (simp add: barC_def peerPE_def)
  from nl r ne show ?thesis by blast
qed

subsection \<open>Preparing the interfaces\<close>

lemma prepareIface_fields [simp]:
  "iface_Name (prepareIface e a) = iface_Name a"
  "iface_Annotations (prepareIface e a) = iface_Annotations a"
  "iface_Methods (prepareIface e a) = sortSliceBy e method_Name (iface_Methods a)"
  "iface_Properties (prepareIface e a) = sortSliceBy e prop_Name (iface_Properties a)"
  "iface_Signals (prepareIface e a) = sortSliceBy e signal_Name (iface_Signals a)"
  by (simp_all add: prepareIface_def)

lemma permutedIface_refl: "permutedIface a a"
  by (simp add: permutedIface_def)

lemma permutedIface_prepareIface:
  "sortSliceOK e \<Longrightarrow> permutedIface a (prepareIface e a)"
  by (simp add: permutedIface_def mset_sortSliceBy)

lemma sortedMembers_prepareIface:
  "sortSliceOK e \<Longrightarrow> sortedMembers (prepareIface e a)"
  by (simp add: sortedMembers_def sorted_sortSliceBy)

lemma prepareIface_cong:
  assumes "sortSliceOK e" and "permutedIface a b" and "uniqueMembers a"
  shows "prepareIface e a = prepareIface e b"
proof -
  have "sortSliceBy e method_Name (iface_Methods a) = sortSliceBy e method_Name (iface_Methods b)"
    using assms by (intro sortSliceBy_perm) (simp_all add: permutedIface_def uniqueMembers_def)
  moreover
  have "sortSliceBy e prop_Name (iface_Properties a) = sortSliceBy e prop_Name (iface_Properties b)"
    using assms by (intro sortSliceBy_perm) (simp_all add: permutedIface_def uniqueMembers_def)
  moreover
  have "sortSliceBy e signal_Name (iface_Signals a) = sortSliceBy e signal_Name (iface_Signals b)"
    using assms by (intro sortSliceBy_perm) (simp_all add: permutedIface_def uniqueMembers_def)
  ultimately show ?thesis
    using assms(2) by (cases a, cases b) (simp add: prepareIface_def permutedIface_def)
qed

lemma prepareIface_sorted_id:
  assumes "sortSliceOK e" and "sortedMembers a" and "uniqueMembers a"
  shows "prepareIface e a = a"
  using assms
  by (cases a) (simp add: prepareIface_def sortedMembers_def uniqueMembers_def sortSliceBy_sorted_id)

lemma sortSliceBy_map:
  assumes "sortSliceOK e" and "\<And>x. key (f x) = key x"
  shows "sortSliceBy e key (map f xs) = map f (sortSliceBy e key xs)"
proof -
  have k: "map key (map f xs) = map key xs"
    using assms(2) by simp
  have "map (\<lambda>i. map f xs ! i) (sortSlice e (map key xs))
      = map (f \<circ> (\<lambda>i. xs ! i)) (sortSlice e (map key xs))"
  proof (rule map_cong [OF refl])
    fix i assume "i \<in> set (sortSlice e (map key xs))"
    then have "i < length xs"
      using sortSlice_in_range [OF assms(1), of i "map key xs"] by simp
    then show "map f xs ! i = (f \<circ> (\<lambda>i. xs ! i)) i" by simp
  qed
  then show ?thesis
    unfolding sortSliceBy_def k by simp
qed

lemma prepareIfaces_alt:
  "sortSliceOK e \<Longrightarrow>
     prepareIfaces e xs = sortSliceBy e iface_Name (map (prepareIface e) xs)"
  by (simp add: prepareIfaces_def sortSliceBy_map)

lemma permutedIfaces_prepareIfaces:
  assumes "sortSliceOK e"
  shows "permutedIfaces xs (prepareIfaces e xs)"
proof -
  let ?zs = "sortSliceBy e iface_Name xs"
  have "mset ?zs = mset xs"
    using assms by (rule mset_sortSliceBy)
  moreover have "list_all2 permutedIface ?zs (map (prepareIface e) ?zs)"
    using assms by (simp add: list_all2_conv_all_nth permutedIface_prepareIface)
  ultimately show ?thesis
    unfolding permutedIfaces_def prepareIfaces_def by blast
qed

lemma permutedIfaces_refl: "permutedIfaces xs xs"
  unfolding permutedIfaces_def
  by (rule exI [of _ xs]) (simp add: list_all2_conv_all_nth permutedIface_refl)

lemma sortedNames_prepareIfaces:
  assumes "sortSliceOK e"
  shows "sortedNames (prepareIfaces e xs)"
proof -
  have "map iface_Name (prepareIfaces e xs) = map iface_Name (sortSliceBy e iface_Name xs)"
    by (simp add: prepareIfaces_def)
  then have "sorted (map iface_Name (prepareIfaces e xs))"
    using sorted_sortSliceBy [OF assms, of iface_Name xs] by simp
  moreover have "list_all sortedMembers (prepareIfaces e xs)"
    using assms by (simp add: prepareIfaces_def list_all_iff sortedMembers_prepareIface)
  ultimately show ?thesis
    by (simp add: sortedNames_def)
qed

lemma prepareIfaces_sorted_id:
  assumes "sortSliceOK e" and "sortedNames xs" and "uniqueNames xs"
  shows "prepareIfaces e xs = xs"
proof -
  have "sortSliceBy e iface_Name xs = xs"
    using assms by (intro sortSliceBy_sorted_id) (simp_all add: sortedNames_def uniqueNames_def)
  moreover have "map (prepareIface e) xs = xs"
    using assms
    by (intro map_idI prepareIface_sorted_id) (simp_all add: sortedNames_def uniqueNames_def list_all_iff)
  ultimately show ?thesis
    by (simp add: prepareIfaces_def)
qed

lemma map_prepareIface_cong:
  assumes "sortSliceOK e"
  shows "list_all2 permutedIface zs ys \<Longrightarrow> list_all uniqueMembers zs
    \<Longrightarrow> map (prepareIface e) zs = map (prepareIface e) ys"
proof (induction zs ys rule: list_all2_induct)
  case Nil
  show ?case by simp
next
  case (Cons z zs y ys)
  then show ?case
    using prepareIface_cong [OF assms, of z y] by simp
qed

lemma prepareIfaces_permuted:
  assumes ok: "sortSliceOK e" and u: "uniqueNames xs" and p: "permutedIfaces xs ys"
  shows "prepareIfaces e xs = prepareIfaces e ys"
proof -
  from p obtain zs where zs: "mset zs = mset xs" and rel: "list_all2 permutedIface zs ys"
    unfolding permutedIfaces_def by blast
  have setz: "set zs = set xs"
    using zs by (rule mset_eq_setD)
  have "list_all uniqueMembers zs"
    using u setz by (simp add: uniqueNames_def list_all_iff)
  then have "map (prepareIface e) zs = map (prepareIface e) ys"
    using map_prepareIface_cong [OF ok rel] by simp
  moreover have "sortSliceBy e iface_Name (map (prepareIface e) xs)
      = sortSliceBy e iface_Name (map (prepareIface e) zs)"
    using ok zs u
    by (intro sortSliceBy_perm) (simp_all add: uniqueNames_def o_def)
  ultimately show ?thesis
    using ok by (simp add: prepareIfaces_alt)
qed

subsection \<open>The output does not depend on the input order\<close>

lemma sortSliceOK_exampleEnv: "sortSliceOK exampleEnv"
  by (simp add: sortSliceOK_def exampleEnv_def insertionSort_def)

lemma permutedIfaces_length: "permutedIfaces xs ys \<Longrightarrow> length xs = length ys"
  unfolding permutedIfaces_def
  by (metis list_all2_lengthD mset_eq_length)

lemma example_uniqueNames: "uniqueNames [peerPE, barC]"
  by (simp add: uniqueNames_def uniqueMembers_def peerPE_def barC_def methodPing_def
      methodEcho_def)

lemma example_permutedIfaces: "permutedIfaces [peerPE, barC] [barC, peerEP]"
  unfolding permutedIfaces_def
  by (rule exI [of _ "[barC, peerPE]"]) (simp add: permutedIface_def peerPE_def peerEP_def)

lemma example_prepareIfaces: "prepareIfaces exampleEnv [peerPE, barC] = [barC, peerEP]"
  by code_simp

lemma example_Print_succeeds: "res_err (Print exampleEnv [] [barC, peerEP] []) = None"
  by code_simp

text \<open>
  C1, as the code has it. Take a sequence of interfaces with unique names (no two
  interfaces of one name, and in an interface no two methods, properties or signals
  of one name), and a second sequence that holds the same interfaces in another
  order, with the methods, the properties and the signals of every interface in
  another order as well. With the same options, \<^verbatim>\<open>Print\<close> gives the same error or
  writes the same text on both, whatever algorithm \<^verbatim>\<open>sort.Slice\<close> runs.
\<close>

theorem Print_deterministic:
  assumes "sortSliceOK e" and "uniqueNames xs" and "permutedIfaces xs ys"
  shows "res_err (Print e out0 xs opts) = res_err (Print e out0 ys opts)
       \<and> res_out (Print e out0 xs opts) = res_out (Print e out0 ys opts)"
proof -
  have "prepareIfaces e xs = prepareIfaces e ys"
    using assms by (rule prepareIfaces_permuted)
  moreover have "length xs = length ys"
    using assms(3) by (rule permutedIfaces_length)
  ultimately show ?thesis
    by (simp add: Print_def Let_def)
qed

text \<open>
  The theorem at two interfaces, given in the two orders and with the methods of the
  one in the two orders; the run succeeds.
\<close>

theorem Print_deterministic_witness:
  "sortSliceOK exampleEnv
   \<and> uniqueNames [peerPE, barC]
   \<and> permutedIfaces [peerPE, barC] [barC, peerEP]
   \<and> res_err (Print exampleEnv [] [peerPE, barC] []) = None
   \<and> res_out (Print exampleEnv [] [peerPE, barC] [])
       = res_out (Print exampleEnv [] [barC, peerEP] [])"
proof -
  note d = Print_deterministic [OF sortSliceOK_exampleEnv example_uniqueNames
      example_permutedIfaces, of "[]" "[]"]
  from d example_Print_succeeds
  have "res_err (Print exampleEnv [] [peerPE, barC] []) = None"
    by simp
  with d sortSliceOK_exampleEnv example_uniqueNames example_permutedIfaces
  show ?thesis by blast
qed

lemma pieces_Inr_Cons:
  "pieces (Inr s # xs) = Inr buf \<Longrightarrow> \<exists>rest. pieces xs = Inr rest \<and> buf = s @ rest"
  by (cases "pieces xs") auto

lemma rangeOver_lit: "rangeOver xs (\<lambda>x. lit (f x)) = Inr (concat (map f xs))"
  by (induction xs) (simp_all add: rangeOver_def lit_def)

lemma execute_summary:
  assumes "execute p ctx = Inr buf"
  shows "\<exists>rest. buf = ''// Code generated by dbus-codegen-go. DO NOT EDIT.\<newline>//''
           @ concat (map tmplSummary (Interfaces ctx)) @ rest"
proof -
  from assms obtain r1 where
    "buf = ''// Code generated by dbus-codegen-go. DO NOT EDIT.\<newline>//'' @ r1" and
    "pieces (Inr (concat (map tmplSummary (Interfaces ctx))) #
       [lit (''\<newline>package '' @ PackageName ctx @ tmplImports),
        rangeOver (Interfaces ctx) (tmplLookupInterfaceCase p),
        lit tmplSignalInterface,
        rangeOver (Interfaces ctx) (\<lambda>iface.
          rangeOver (iface_Signals iface) (tmplLookupSignalCase p (PackageName ctx) iface)),
        lit tmplAddMatchRule,
        rangeOver (Interfaces ctx) (tmplNameConst p),
        lit ''\<newline>)'',
        lit ''\<newline>'',
        rangeOver (Interfaces ctx) (tmplInterface p)]) = Inr r1"
    unfolding execute_def rangeOver_lit lit_def [of "''// Code generated by dbus-codegen-go. DO NOT EDIT.\<newline>//''"]
    by (blast dest: pieces_Inr_Cons)
  then show ?thesis
    by (blast dest: pieces_Inr_Cons)
qed

lemma Print_raw_output:
  assumes "res_err (Print e out0 ifaces0 opts) = None" and "\<not> gofmt (newPrinter opts)"
  shows "\<exists>buf. execute (newPrinter opts)
              \<lparr>PackageName = pkgName (newPrinter opts), Interfaces = prepareIfaces e ifaces0\<rparr>
            = Inr buf
          \<and> res_out (Print e out0 ifaces0 opts) = out0 @ buf"
  using assms
  by (auto simp: Print_def Let_def split: if_splits sum.splits option.splits)

lemma same_name_succeeds_1: "res_err (Print exampleEnv [] [fooA, fooM] [WithGofmt False]) = None"
  by code_simp

lemma same_name_succeeds_2: "res_err (Print exampleEnv [] [fooM, fooA] [WithGofmt False]) = None"
  by code_simp

lemma same_name_prepareIfaces:
  "prepareIfaces exampleEnv [fooA, fooM] = [fooA, fooM]"
  "prepareIfaces exampleEnv [fooM, fooA] = [fooM, fooA]"
  by code_simp+

lemma same_name_summaries:
  "length (concat (map tmplSummary [fooA, fooM])) = length (concat (map tmplSummary [fooM, fooA]))"
  "concat (map tmplSummary [fooA, fooM]) \<noteq> concat (map tmplSummary [fooM, fooA])"
  by (simp_all add: tmplSummary_def fooA_def fooM_def methodPing_def)

lemma differ_in_middle:
  "length a = length b \<Longrightarrow> a \<noteq> b \<Longrightarrow> h @ a @ r \<noteq> h @ b @ r'"
  by simp

text \<open>
  The claim as it is written fails for two interfaces of the same name: the sort leaves
  them in the order in which they came, and the text follows that order. Neither run
  fails, and formatting is off, so the text is the output of the template.
\<close>

theorem Print_same_name_counterexample:
  "permutedIfaces [fooA, fooM] [fooM, fooA]
   \<and> res_err (Print exampleEnv [] [fooA, fooM] [WithGofmt False]) = None
   \<and> res_err (Print exampleEnv [] [fooM, fooA] [WithGofmt False]) = None
   \<and> res_out (Print exampleEnv [] [fooA, fooM] [WithGofmt False])
       \<noteq> res_out (Print exampleEnv [] [fooM, fooA] [WithGofmt False])"
proof -
  have g: "\<not> gofmt (newPrinter [WithGofmt False])"
    by (simp add: newPrinter_def)
  have p: "permutedIfaces [fooA, fooM] [fooM, fooA]"
    unfolding permutedIfaces_def
    by (rule exI [of _ "[fooM, fooA]"]) (simp add: permutedIface_def)
  from Print_raw_output [OF same_name_succeeds_1 g] obtain r1 where
    r1: "res_out (Print exampleEnv [] [fooA, fooM] [WithGofmt False])
      = ''// Code generated by dbus-codegen-go. DO NOT EDIT.\<newline>//''
        @ concat (map tmplSummary [fooA, fooM]) @ r1"
    by (auto simp: same_name_prepareIfaces dest!: execute_summary)
  from Print_raw_output [OF same_name_succeeds_2 g] obtain r2 where
    r2: "res_out (Print exampleEnv [] [fooM, fooA] [WithGofmt False])
      = ''// Code generated by dbus-codegen-go. DO NOT EDIT.\<newline>//''
        @ concat (map tmplSummary [fooM, fooA]) @ r2"
    by (auto simp: same_name_prepareIfaces dest!: execute_summary)
  have "res_out (Print exampleEnv [] [fooA, fooM] [WithGofmt False])
       \<noteq> res_out (Print exampleEnv [] [fooM, fooA] [WithGofmt False])"
    unfolding r1 r2 by (rule differ_in_middle [OF same_name_summaries])
  with p same_name_succeeds_1 same_name_succeeds_2 show ?thesis by blast
qed

subsection \<open>What Print does to the model\<close>

lemma Print_res_ifaces:
  "res_ifaces (Print e out0 ifaces0 opts) =
     (if MatchString identRegexp (pkgName (newPrinter opts)) \<and> ifaces0 \<noteq> []
      then prepareIfaces e ifaces0 else ifaces0)"
  by (auto simp: Print_def Let_def split: sum.splits option.splits)

lemma example_sortedNames: "sortedNames [barC, peerEP]"
  using sortedNames_prepareIfaces [OF sortSliceOK_exampleEnv, of "[peerPE, barC]"]
  by (simp add: example_prepareIfaces)

lemma example_uniqueNames_sorted: "uniqueNames [barC, peerEP]"
  by (simp add: uniqueNames_def uniqueMembers_def peerEP_def barC_def methodPing_def
      methodEcho_def)

lemma default_pkgName_ok: "MatchString identRegexp (pkgName (newPrinter []))"
  by code_simp

lemma bad_pkgName_refused:
  "\<not> MatchString identRegexp (pkgName (newPrinter [WithPackageName ''my package'']))"
  by code_simp

text \<open>
  C8, as the code has it. \<^verbatim>\<open>Print\<close> changes nothing of the model but its order. The
  sequence of the caller holds the same interfaces afterwards, and every interface
  has its name, its annotations and the same methods, properties and signals. When
  \<^verbatim>\<open>Print\<close> passes its two checks (the package name matches, there is an interface)
  the interfaces, and in every interface the methods, the properties and the signals,
  are sorted by name afterwards, whatever \<^verbatim>\<open>Print\<close> returns; when it fails one of the
  two checks the model is as it was. A model whose names are unique and in order
  already is left as it is.
\<close>

theorem Print_reorders_only:
  assumes "sortSliceOK e"
  shows "permutedIfaces ifaces0 (res_ifaces (Print e out0 ifaces0 opts))
       \<and> (MatchString identRegexp (pkgName (newPrinter opts)) \<and> ifaces0 \<noteq> []
            \<longrightarrow> res_ifaces (Print e out0 ifaces0 opts) = prepareIfaces e ifaces0
                \<and> sortedNames (res_ifaces (Print e out0 ifaces0 opts)))
       \<and> (\<not> MatchString identRegexp (pkgName (newPrinter opts)) \<or> ifaces0 = []
            \<longrightarrow> res_ifaces (Print e out0 ifaces0 opts) = ifaces0)
       \<and> (sortedNames ifaces0 \<and> uniqueNames ifaces0
            \<longrightarrow> res_ifaces (Print e out0 ifaces0 opts) = ifaces0)"
  using permutedIfaces_prepareIfaces [OF assms, of ifaces0] permutedIfaces_refl [of ifaces0]
    sortedNames_prepareIfaces [OF assms, of ifaces0]
    prepareIfaces_sorted_id [OF assms, of ifaces0]
  by (simp add: Print_res_ifaces)

text \<open>
  The theorem at a model that is not in order, with a package name that passes and
  with one that does not, and at the same model in order.
\<close>

theorem Print_reorders_only_witness:
  "sortSliceOK exampleEnv
   \<and> MatchString identRegexp (pkgName (newPrinter [])) \<and> [peerPE, barC] \<noteq> []
   \<and> permutedIfaces [peerPE, barC] (res_ifaces (Print exampleEnv [] [peerPE, barC] []))
   \<and> res_ifaces (Print exampleEnv [] [peerPE, barC] []) = [barC, peerEP]
   \<and> sortedNames (res_ifaces (Print exampleEnv [] [peerPE, barC] []))
   \<and> \<not> MatchString identRegexp (pkgName (newPrinter [WithPackageName ''my package'']))
   \<and> res_ifaces (Print exampleEnv [] [peerPE, barC] [WithPackageName ''my package''])
       = [peerPE, barC]
   \<and> sortedNames [barC, peerEP] \<and> uniqueNames [barC, peerEP]
   \<and> res_ifaces (Print exampleEnv [] [barC, peerEP] []) = [barC, peerEP]"
proof -
  note t1 = Print_reorders_only [OF sortSliceOK_exampleEnv, of "[peerPE, barC]" "[]" "[]"]
  have ne: "[peerPE, barC] \<noteq> []"
    by simp
  from t1 default_pkgName_ok ne
  have a: "permutedIfaces [peerPE, barC] (res_ifaces (Print exampleEnv [] [peerPE, barC] []))"
    and p: "res_ifaces (Print exampleEnv [] [peerPE, barC] [])
        = prepareIfaces exampleEnv [peerPE, barC]"
    and b: "sortedNames (res_ifaces (Print exampleEnv [] [peerPE, barC] []))"
    by blast+
  from p have r: "res_ifaces (Print exampleEnv [] [peerPE, barC] []) = [barC, peerEP]"
    by (simp add: example_prepareIfaces)
  from Print_reorders_only [OF sortSliceOK_exampleEnv,
      of "[peerPE, barC]" "[]" "[WithPackageName ''my package'']"] bad_pkgName_refused
  have d: "res_ifaces (Print exampleEnv [] [peerPE, barC] [WithPackageName ''my package''])
       = [peerPE, barC]"
    by blast
  from Print_reorders_only [OF sortSliceOK_exampleEnv, of "[barC, peerEP]" "[]" "[]"]
    example_sortedNames example_uniqueNames_sorted
  have c: "res_ifaces (Print exampleEnv [] [barC, peerEP] []) = [barC, peerEP]"
    by blast
  from sortSliceOK_exampleEnv default_pkgName_ok ne a r b bad_pkgName_refused d c
    example_sortedNames example_uniqueNames_sorted
  show ?thesis by blast
qed

text \<open>
  The claim as it is written fails: \<^verbatim>\<open>Print\<close> leaves the two interfaces in the other
  order, and the two methods of the interface \<^verbatim>\<open>org.example.Peer\<close> as well.
\<close>

theorem Print_reorders_counterexample:
  "res_ifaces (Print exampleEnv [] [peerPE, barC] []) = [barC, peerEP]
   \<and> [barC, peerEP] \<noteq> [peerPE, barC]
   \<and> iface_Methods peerPE = [methodPing, methodEcho]
   \<and> iface_Methods peerEP = [methodEcho, methodPing]
   \<and> [methodEcho, methodPing] \<noteq> [methodPing, methodEcho]"
  by (simp add: Print_res_ifaces default_pkgName_ok example_prepareIfaces)
     (simp add: barC_def peerPE_def peerEP_def methodPing_def methodEcho_def)

subsection \<open>Characters and case\<close>

lemma isLower_nat: "isLower c \<longleftrightarrow> 97 \<le> (of_char c :: nat) \<and> (of_char c :: nat) \<le> 122"
  by (simp add: isLower_def less_eq_char_def)

lemma isUpper_nat: "isUpper c \<longleftrightarrow> 65 \<le> (of_char c :: nat) \<and> (of_char c :: nat) \<le> 90"
  by (simp add: isUpper_def less_eq_char_def)

lemma isDigit_nat: "isDigit c \<longleftrightarrow> 48 \<le> (of_char c :: nat) \<and> (of_char c :: nat) \<le> 57"
  by (simp add: isDigit_def less_eq_char_def)

lemma underscore_nat: "c = CHR ''_'' \<longleftrightarrow> (of_char c :: nat) = 95"
proof -
  have "(of_char (CHR ''_'') :: nat) = 95" by simp
  then show ?thesis by (metis of_char_eq_iff)
qed

lemma isUpper_toUpperChar:
  assumes "isLower c"
  shows "isUpper (toUpperChar c)"
proof -
  let ?n = "of_char c :: nat"
  from assms have r: "97 \<le> ?n" "?n \<le> 122"
    by (simp_all add: isLower_nat)
  then have "(?n - 32) mod 256 = ?n - 32"
    by simp
  moreover from r have "65 \<le> ?n - 32 \<and> ?n - 32 \<le> 90"
    by arith
  ultimately show ?thesis
    using assms by (simp add: toUpperChar_def isUpper_nat)
qed

lemma isUpper_not_isLower: "isUpper c \<Longrightarrow> \<not> isLower c"
  by (simp add: isLower_nat isUpper_nat)

lemma not_isLower_toUpperChar: "\<not> isLower (toUpperChar c)"
  using isUpper_toUpperChar [of c] isUpper_not_isLower [of "toUpperChar c"]
  by (cases "isLower c") (simp_all add: toUpperChar_def)

lemma toUpperChar_id: "\<not> isLower c \<Longrightarrow> toUpperChar c = c"
  by (simp add: toUpperChar_def)

lemma toLowerChar_id: "\<not> isUpper c \<Longrightarrow> toLowerChar c = c"
  by (simp add: toLowerChar_def)

lemma isLower_not_isUpper: "isLower c \<Longrightarrow> \<not> isUpper c"
  by (simp add: isLower_nat isUpper_nat)

lemma isLower_toLowerChar:
  assumes "isUpper c"
  shows "isLower (toLowerChar c)"
proof -
  let ?n = "of_char c :: nat"
  from assms have r: "65 \<le> ?n" "?n \<le> 90"
    by (simp_all add: isUpper_nat)
  then have "(?n + 32) mod 256 = ?n + 32"
    by simp
  moreover from r have "97 \<le> ?n + 32 \<and> ?n + 32 \<le> 122"
    by arith
  ultimately show ?thesis
    using assms by (simp add: toLowerChar_def isLower_nat)
qed

lemma isLetter_toUpperChar: "isLetter c \<Longrightarrow> isLetter (toUpperChar c)"
  by (cases "isLower c") (auto simp: isLetter_def isUpper_toUpperChar toUpperChar_id)

lemma isLetter_toLowerChar: "isLetter c \<Longrightarrow> isLetter (toLowerChar c)"
  by (cases "isUpper c") (auto simp: isLetter_def isLower_toLowerChar toLowerChar_id)

lemma isAlnum_not_underscore: "isAlnum c \<Longrightarrow> c \<noteq> CHR ''_''"
  by (auto simp: isAlnum_def isLetter_def isLower_nat isUpper_nat isDigit_nat underscore_nat)

lemma identChar_alt: "identChar c \<longleftrightarrow> isAlnum c \<or> c = CHR ''_''"
  by (auto simp: identChar_def isAlnum_def)

lemma identChar_toUpperChar: "identChar c \<Longrightarrow> identChar (toUpperChar c)"
  by (cases "isLower c") (auto simp: identChar_def isLetter_def isUpper_toUpperChar toUpperChar_id)

lemma identChar_toLowerChar: "identChar c \<Longrightarrow> identChar (toLowerChar c)"
  by (cases "isUpper c") (auto simp: identChar_def isLetter_def isLower_toLowerChar toLowerChar_id)

lemma toLowerChar_underscore: "toLowerChar (CHR ''_'') = CHR ''_''"
  by (simp add: toLowerChar_def isUpper_nat)

lemma toUpperChar_underscore: "toUpperChar (CHR ''_'') = CHR ''_''"
  by (simp add: toUpperChar_def isLower_nat)

lemma identChar_underscore: "identChar (CHR ''_'')"
  by (simp add: identChar_def)

lemma identChar_not_separator: "identChar c \<Longrightarrow> \<not> isSeparator c"
  by (auto simp: identChar_alt isSeparator_def)

lemma isSeparator_space: "isSeparator (CHR '' '')"
  by (simp add: isSeparator_def isAlnum_def isLetter_def isLower_nat isUpper_nat isDigit_nat)

lemma isDigit_digitChar: "d < 10 \<Longrightarrow> isDigit (digitChar d)"
  by (simp add: digitChar_def isDigit_nat)

lemma isDigit_not_isLower: "isDigit c \<Longrightarrow> \<not> isLower c"
  by (simp add: isDigit_nat isLower_nat)

subsection \<open>Title and Itoa\<close>

lemma Title_Cons: "Title (c # cs) = toUpperChar c # titleFrom c cs"
  by (simp add: Title_def isSeparator_space)

lemma Title_Nil: "Title [] = []"
  by (simp add: Title_def)

lemma titleFrom_ident:
  "\<not> isSeparator prev \<Longrightarrow> list_all identChar s \<Longrightarrow> titleFrom prev s = s"
  by (induction s arbitrary: prev) (auto simp: identChar_not_separator)

lemma Title_ident:
  "list_all identChar s \<Longrightarrow> Title s = (case s of [] \<Rightarrow> [] | c # cs \<Rightarrow> toUpperChar c # cs)"
  by (cases s) (simp_all add: Title_Nil Title_Cons titleFrom_ident identChar_not_separator)

lemma list_all_identChar_titleFrom:
  "list_all identChar s \<Longrightarrow> list_all identChar (titleFrom prev s)"
  by (induction s arbitrary: prev) (auto simp: identChar_toUpperChar)

lemma list_all_identChar_Title:
  "list_all identChar s \<Longrightarrow> list_all identChar (Title s)"
  by (simp add: Title_def list_all_identChar_titleFrom)

lemma digits_all: "list_all isDigit (digits n) \<and> digits n \<noteq> []"
proof (induction n rule: digits.induct)
  case (1 n)
  show ?case
  proof (cases "n < 10")
    case True
    then show ?thesis by (simp add: digits.simps [of n] isDigit_digitChar)
  next
    case False
    with 1 show ?thesis by (simp add: digits.simps [of n] isDigit_digitChar)
  qed
qed

lemma Itoa_not_lower: "Itoa i \<noteq> [] \<and> list_all (\<lambda>c. \<not> isLower c) (Itoa i)"
proof -
  have "\<not> isLower (CHR ''-'')" by (simp add: isLower_nat)
  moreover have "list_all (\<lambda>c. \<not> isLower c) (digits n)" for n
    using digits_all [of n] by (auto simp: list_all_iff isDigit_not_isLower)
  ultimately show ?thesis
    using digits_all by (simp add: Itoa_def)
qed

lemma Itoa_nonneg_digits: "0 \<le> i \<Longrightarrow> list_all isDigit (Itoa i) \<and> Itoa i \<noteq> []"
  using digits_all by (simp add: Itoa_def)

subsection \<open>Keywords\<close>

lemma keywordTokens_lower: "list_all (\<lambda>k. k \<noteq> [] \<and> list_all isLower k) keywordTokens"
  by code_simp

lemma isKeyword_lower: "isKeyword s \<Longrightarrow> s \<noteq> [] \<and> list_all isLower s"
  using keywordTokens_lower
  by (auto simp: isKeyword_def Lookup_IsKeyword_def list_all_iff)

lemma isKeywordLoop_iff: "isKeywordLoop ks s \<longleftrightarrow> s \<in> set ks"
  by (induction ks) auto

lemma keywords_same: "set keywords_dbusgen = set keywordTokens"
  by (auto simp: keywords_dbusgen_def keywordTokens_def)

lemma isKeyword_dbusgen_eq: "isKeyword_dbusgen s = isKeyword s"
  by (simp add: isKeyword_dbusgen_def isKeyword_def Lookup_IsKeyword_def isKeywordLoop_iff
      keywords_same)

lemma not_isKeyword_with_nonlower:
  "c \<in> set s \<Longrightarrow> \<not> isLower c \<Longrightarrow> \<not> isKeyword s"
  using isKeyword_lower [of s] by (auto simp: list_all_iff)

lemma not_isKeyword_prefix_Title:
  "isKeyword k \<Longrightarrow> \<not> isKeyword (prefix @ Title k)"
proof -
  assume "isKeyword k"
  then obtain c cs where k: "k = c # cs"
    using isKeyword_lower [of k] by (cases k) auto
  have "toUpperChar c \<in> set (prefix @ Title k)"
    by (simp add: k Title_Cons)
  then show ?thesis
    using not_isLower_toUpperChar by (rule not_isKeyword_with_nonlower)
qed


subsection \<open>The two patterns for argument names\<close>

lemma matchHere_star_one:
  "matchHere [Rep Star underscore, Rep One isAlnum] s =
     (case dropWhile underscore s of
        [] \<Rightarrow> None
      | x # _ \<Rightarrow> if isAlnum x then Some (Suc (length (takeWhile underscore s))) else None)"
proof (induction s)
  case Nil
  show ?case by simp
next
  case (Cons c cs)
  have nu: "\<not> isAlnum (CHR ''_'')"
    using isAlnum_not_underscore by blast
  show ?case
  proof (cases "c = CHR ''_''")
    case True
    have step: "matchHere [Rep Star underscore, Rep One isAlnum] (c # cs) =
        (case matchHere [Rep Star underscore, Rep One isAlnum] cs of
           Some n \<Rightarrow> Some (Suc n) | None \<Rightarrow> None)"
      using True nu by (simp split: option.split)
    have d: "dropWhile underscore (c # cs) = dropWhile underscore cs"
        "takeWhile underscore (c # cs) = c # takeWhile underscore cs"
      using True by simp_all
    show ?thesis
      unfolding step d Cons.IH by (simp del: dropWhile_eq_Nil_conv split: list.split)
  next
    case False
    then show ?thesis
      by simp
  qed
qed

lemma take_drop_run:
  assumes "dropWhile P cs = x # rest"
  shows "take (Suc (length (takeWhile P cs))) cs = takeWhile P cs @ [x]"
    and "drop (Suc (length (takeWhile P cs))) cs = rest"
proof -
  define tw where "tw = takeWhile P cs"
  have cs: "cs = tw @ x # rest"
    unfolding tw_def using assms by (metis takeWhile_dropWhile_id)
  have "take (Suc (length tw)) cs = tw @ [x]"
    by (subst cs) simp
  then show "take (Suc (length (takeWhile P cs))) cs = takeWhile P cs @ [x]"
    unfolding tw_def .
  have "drop (Suc (length tw)) cs = rest"
    by (subst cs) simp
  then show "drop (Suc (length (takeWhile P cs))) cs = rest"
    unfolding tw_def .
qed

lemma Replace_varRegexp_Nil: "ReplaceAllStringFunc varRegexp [] f = []"
  by simp

lemma matchHere_varRegexp:
  "matchHere (items varRegexp) (c # cs) =
     (if c = CHR ''_'' then
        (case dropWhile underscore cs of
           [] \<Rightarrow> None
         | x # _ \<Rightarrow> if isAlnum x then Some (Suc (Suc (length (takeWhile underscore cs)))) else None)
      else None)"
proof (cases "c = CHR ''_''")
  case True
  have "matchHere (items varRegexp) (c # cs) =
      map_option Suc (matchHere [Rep Star underscore, Rep One isAlnum] cs)"
    using True by (simp add: varRegexp_def)
  then show ?thesis
    unfolding matchHere_star_one using True
    by (simp del: dropWhile_eq_Nil_conv split: list.split)
next
  case False
  then show ?thesis by (simp add: varRegexp_def)
qed

lemma Replace_varRegexp_Cons:
  "ReplaceAllStringFunc varRegexp (c # cs) f =
     (if c = CHR ''_'' then
        (case dropWhile underscore cs of
           [] \<Rightarrow> c # ReplaceAllStringFunc varRegexp cs f
         | x # rest \<Rightarrow>
             if isAlnum x
             then f (c # takeWhile underscore cs @ [x]) @ ReplaceAllStringFunc varRegexp rest f
             else c # ReplaceAllStringFunc varRegexp cs f)
      else c # ReplaceAllStringFunc varRegexp cs f)"
proof (cases "dropWhile underscore cs")
  case Nil
  show ?thesis
    unfolding ReplaceAllStringFunc.simps matchHere_varRegexp Nil by simp
next
  case (Cons x rest)
  show ?thesis
    unfolding ReplaceAllStringFunc.simps matchHere_varRegexp Cons
    using take_drop_run [OF Cons] by simp
qed

lemma Replace_dbusgen_Cons:
  "ReplaceAllStringFunc varRegexp_dbusgen (c # cs) f =
     (if c = CHR ''_'' then
        (case cs of
           [] \<Rightarrow> [c]
         | x # rest \<Rightarrow>
             if isAlnum x
             then f [c, x] @ ReplaceAllStringFunc varRegexp_dbusgen rest f
             else c # ReplaceAllStringFunc varRegexp_dbusgen cs f)
      else c # ReplaceAllStringFunc varRegexp_dbusgen cs f)"
  by (cases cs) (simp_all add: varRegexp_dbusgen_def)

text \<open>The camel-casing of the printer and the one of package dbusgen, as recursions.\<close>

lemma TrimLeft_run:
  "x \<noteq> CHR ''_'' \<Longrightarrow> TrimLeft (CHR ''_'' # takeWhile underscore cs @ [x]) ''_'' = [x]"
proof -
  assume x: "x \<noteq> CHR ''_''"
  have "\<And>y. y \<in> set (takeWhile underscore cs) \<Longrightarrow> underscore y"
    by (rule set_takeWhileD [THEN conjunct2])
  then have "dropWhile underscore (takeWhile underscore cs @ [x]) = dropWhile underscore [x]"
    by (rule dropWhile_append2)
  then have "dropWhile underscore (takeWhile underscore cs @ [x]) = [x]"
    using x by simp
  then show ?thesis
    by (simp add: TrimLeft_def)
qed

lemma Title_single: "Title [x] = [toUpperChar x]"
  by (simp add: Title_Cons)

lemma camel_printer_Cons:
  "ReplaceAllStringFunc varRegexp (c # cs) (\<lambda>s. Title (TrimLeft s ''_'')) =
     (if c = CHR ''_'' then
        (case dropWhile underscore cs of
           [] \<Rightarrow> c # ReplaceAllStringFunc varRegexp cs (\<lambda>s. Title (TrimLeft s ''_''))
         | x # rest \<Rightarrow>
             if isAlnum x
             then toUpperChar x # ReplaceAllStringFunc varRegexp rest (\<lambda>s. Title (TrimLeft s ''_''))
             else c # ReplaceAllStringFunc varRegexp cs (\<lambda>s. Title (TrimLeft s ''_'')))
      else c # ReplaceAllStringFunc varRegexp cs (\<lambda>s. Title (TrimLeft s ''_'')))"
proof (cases "dropWhile underscore cs")
  case Nil
  show ?thesis
    unfolding Replace_varRegexp_Cons Nil by simp
next
  case (Cons x rest)
  have "isAlnum x \<Longrightarrow> Title (TrimLeft (CHR ''_'' # takeWhile underscore cs @ [x]) ''_'') = [toUpperChar x]"
    by (simp add: TrimLeft_run Title_single isAlnum_not_underscore)
  then show ?thesis
    unfolding Replace_varRegexp_Cons Cons by simp
qed

lemma camel_dbusgen_Cons:
  "ReplaceAllStringFunc varRegexp_dbusgen (c # cs) (\<lambda>s. Title (drop 1 s)) =
     (if c = CHR ''_'' then
        (case cs of
           [] \<Rightarrow> [c]
         | x # rest \<Rightarrow>
             if isAlnum x
             then toUpperChar x # ReplaceAllStringFunc varRegexp_dbusgen rest (\<lambda>s. Title (drop 1 s))
             else c # ReplaceAllStringFunc varRegexp_dbusgen cs (\<lambda>s. Title (drop 1 s)))
      else c # ReplaceAllStringFunc varRegexp_dbusgen cs (\<lambda>s. Title (drop 1 s)))"
  unfolding Replace_dbusgen_Cons
  by (cases cs) (simp_all add: Title_single)

lemma length_dropWhile_rest:
  "dropWhile P cs = x # rest \<Longrightarrow> length rest < length cs"
  by (metis length_dropWhile_le length_Cons less_eq_Suc_le)

lemma set_dropWhile_rest:
  "dropWhile P cs = x # rest \<Longrightarrow> x \<in> set cs \<and> set rest \<subseteq> set cs"
  by (metis set_dropWhileD list.set_intros(1) list.set_intros(2) subsetI)

lemma camel_printer_identChar:
  "list_all identChar s \<Longrightarrow>
     list_all identChar (ReplaceAllStringFunc varRegexp s (\<lambda>s. Title (TrimLeft s ''_'')))"
proof (induction s rule: length_induct)
  case (1 s)
  show ?case
  proof (cases s)
    case Nil
    then show ?thesis by simp
  next
    case (Cons c cs)
    have cs: "list_all identChar cs" and c: "identChar c"
      using 1(2) Cons by simp_all
    have ih: "length t < length s \<Longrightarrow> list_all identChar t \<Longrightarrow>
        list_all identChar (ReplaceAllStringFunc varRegexp t (\<lambda>s. Title (TrimLeft s ''_'')))" for t
      using 1(1) by blast
    have a: "list_all identChar (ReplaceAllStringFunc varRegexp cs (\<lambda>s. Title (TrimLeft s ''_'')))"
      using ih [of cs] cs Cons by simp
    have b: "dropWhile underscore cs = x # rest \<Longrightarrow>
        identChar (toUpperChar x) \<and>
        list_all identChar (ReplaceAllStringFunc varRegexp rest (\<lambda>s. Title (TrimLeft s ''_'')))"
      for x rest
    proof -
      assume d: "dropWhile underscore cs = x # rest"
      have "length rest < length s"
        using length_dropWhile_rest [OF d] Cons by simp
      moreover have "list_all identChar rest" and "identChar x"
        using set_dropWhile_rest [OF d] cs by (auto simp: list_all_iff)
      ultimately show ?thesis
        using ih [of rest] identChar_toUpperChar by blast
    qed
    show ?thesis
    proof (cases "dropWhile underscore cs")
      case Nil
      show ?thesis
        unfolding Cons camel_printer_Cons Nil using a c by (simp add: identChar_underscore)
    next
      case d: (Cons x rest)
      show ?thesis
        unfolding Cons camel_printer_Cons d using a b [OF d] c
        by (simp add: identChar_underscore)
    qed
  qed
qed

lemma camel_printer_lower:
  "list_all isLower (ReplaceAllStringFunc varRegexp s (\<lambda>s. Title (TrimLeft s ''_'')))
     \<Longrightarrow> ReplaceAllStringFunc varRegexp s (\<lambda>s. Title (TrimLeft s ''_'')) = s"
proof (induction s)
  case Nil
  show ?case by simp
next
  case (Cons c cs)
  have u: "\<not> isLower (CHR ''_'')"
    by (simp add: isLower_nat)
  have "c \<noteq> CHR ''_''"
  proof
    assume c: "c = CHR ''_''"
    show False
    proof (cases "dropWhile underscore cs")
      case Nil
      with Cons.prems c u show False
        unfolding camel_printer_Cons by simp
    next
      case d: (Cons x rest)
      with Cons.prems c u not_isLower_toUpperChar [of x] show False
        unfolding camel_printer_Cons by (simp split: if_splits)
    qed
  qed
  with Cons show ?case
    unfolding camel_printer_Cons by simp
qed


subsection \<open>The derived argument name as an identifier\<close>

lemma goIdentifier_iff:
  "goIdentifier s \<longleftrightarrow> s \<noteq> [] \<and> (isLetter (hd s) \<or> hd s = CHR ''_'') \<and> list_all identChar (tl s)"
  by (cases s) (simp_all add: goIdentifier_def)

lemma goIdentifier_identChars: "goIdentifier s \<Longrightarrow> list_all identChar s"
  by (cases s) (auto simp: goIdentifier_def identChar_def)

lemma goIdentifier_append:
  "goIdentifier a \<Longrightarrow> list_all identChar b \<Longrightarrow> goIdentifier (a @ b)"
  by (cases a) (simp_all add: goIdentifier_def)

lemma goIdentifier_Title: "goIdentifier s \<Longrightarrow> goIdentifier (Title s)"
proof -
  assume g: "goIdentifier s"
  then obtain c cs where s: "s = c # cs"
    by (cases s) (simp_all add: goIdentifier_def)
  have "Title s = toUpperChar c # cs"
    using Title_ident [OF goIdentifier_identChars [OF g]] s by simp
  then show ?thesis
    using g s isLetter_toUpperChar [of c] toUpperChar_underscore
    by (auto simp: goIdentifier_def)
qed

lemma isDigit_identChar: "isDigit c \<Longrightarrow> identChar c"
  by (simp add: identChar_def)

lemma goIdentifier_camel:
  assumes "goIdentifier (c # cs)"
  shows "goIdentifier (ToLower (take 1 (c # cs)) @
           ReplaceAllStringFunc varRegexp (drop 1 (c # cs)) (\<lambda>s. Title (TrimLeft s ''_'')))"
proof -
  have "list_all identChar cs"
    using assms by (simp add: goIdentifier_def)
  then have "list_all identChar (ReplaceAllStringFunc varRegexp cs (\<lambda>s. Title (TrimLeft s ''_'')))"
    by (rule camel_printer_identChar)
  moreover have "isLetter (toLowerChar c) \<or> toLowerChar c = CHR ''_''"
    using assms isLetter_toLowerChar [of c] toLowerChar_underscore
    by (auto simp: goIdentifier_def)
  ultimately show ?thesis
    by (simp add: ToLower_def goIdentifier_def)
qed

lemma argName_not_keyword: "\<not> isKeyword (argName arg prefix i export)"
  by (simp add: argName_def Let_def not_isKeyword_prefix_Title)

lemma argName_goIdentifier:
  assumes p: "goIdentifier prefix" and i: "0 \<le> i"
    and n: "arg_Name arg = [] \<or> goIdentifier (arg_Name arg)"
  shows "goIdentifier (argName arg prefix i export)"
proof -
  define n0 where "n0 = (if arg_Name arg = [] then prefix @ Itoa i
      else ToLower (take 1 (arg_Name arg)) @
           ReplaceAllStringFunc varRegexp (drop 1 (arg_Name arg)) (\<lambda>s. Title (TrimLeft s ''_'')))"
  define n1 where "n1 = (if export then Title n0 else n0)"
  have r: "argName arg prefix i export = (if isKeyword n1 then prefix @ Title n1 else n1)"
    by (simp add: argName_def Let_def n0_def n1_def)
  have g0: "goIdentifier n0"
  proof (cases "arg_Name arg")
    case Nil
    have "list_all identChar (Itoa i)"
      using Itoa_nonneg_digits [OF i] by (auto simp: list_all_iff isDigit_identChar)
    then show ?thesis
      using p Nil by (simp add: n0_def goIdentifier_append)
  next
    case (Cons c cs)
    with n have "goIdentifier (c # cs)" by simp
    then show ?thesis
      unfolding n0_def Cons using goIdentifier_camel [of c cs] by simp
  qed
  then have g1: "goIdentifier n1"
    by (simp add: n1_def goIdentifier_Title)
  then have "goIdentifier (prefix @ Title n1)"
    using p goIdentifier_append goIdentifier_identChars goIdentifier_Title by blast
  with g1 show ?thesis
    by (simp add: r)
qed

text \<open>
  C5, as the code has it. \<^verbatim>\<open>argName\<close> has no failing branch: it returns a name for every
  raw name, prefix, index and export flag, and the name is never a keyword of Go. The
  name is an identifier of Go when the prefix is one, the index is not negative, and
  the raw name is empty or an identifier itself; the function does nothing about a
  character of the raw name that no identifier can have.
\<close>

theorem argName_legal_identifier:
  "\<not> isKeyword (argName arg prefix i export)
   \<and> (goIdentifier prefix \<and> 0 \<le> i \<and> (arg_Name arg = [] \<or> goIdentifier (arg_Name arg))
        \<longrightarrow> goIdentifier (argName arg prefix i export))"
  using argName_not_keyword argName_goIdentifier by blast

text \<open>The theorem at the raw name \<^verbatim>\<open>type\<close>, a keyword.\<close>

theorem argName_legal_identifier_witness:
  "goIdentifier ''v'' \<and> (0::int) \<le> 0 \<and> goIdentifier ''type''
   \<and> argName \<lparr>arg_Name = ''type'', arg_Type = ''s''\<rparr> ''v'' 0 False = ''vType''
   \<and> \<not> isKeyword (argName \<lparr>arg_Name = ''type'', arg_Type = ''s''\<rparr> ''v'' 0 False)
   \<and> goIdentifier (argName \<lparr>arg_Name = ''type'', arg_Type = ''s''\<rparr> ''v'' 0 False)"
proof -
  have a: "goIdentifier ''v''" and b: "goIdentifier ''type''"
    by code_simp+
  have c: "argName \<lparr>arg_Name = ''type'', arg_Type = ''s''\<rparr> ''v'' 0 False = ''vType''"
    by code_simp
  from argName_legal_identifier [of "\<lparr>arg_Name = ''type'', arg_Type = ''s''\<rparr>" "''v''" 0 False] a b
  have "\<not> isKeyword (argName \<lparr>arg_Name = ''type'', arg_Type = ''s''\<rparr> ''v'' 0 False)
    \<and> goIdentifier (argName \<lparr>arg_Name = ''type'', arg_Type = ''s''\<rparr> ''v'' 0 False)"
    by simp
  with a b c show ?thesis by simp
qed

text \<open>
  The claim as it is written fails at a raw name with a character that is not allowed
  in an identifier: the name comes back as it is.
\<close>

theorem argName_illegal_identifier_counterexample:
  "argName \<lparr>arg_Name = ''object-path'', arg_Type = ''o''\<rparr> ''v'' 0 False = ''object-path''
   \<and> \<not> goIdentifier ''object-path''"
  by code_simp


subsection \<open>The argument naming of package dbusgen and of the printer\<close>

lemma doubledSeparator_tl: "\<not> doubledSeparator (c # cs) \<Longrightarrow> \<not> doubledSeparator cs"
  by (cases cs rule: doubledSeparator.cases) simp_all

lemma doubledSeparator_run:
  "dropWhile underscore rest = y # r \<Longrightarrow> isAlnum y
     \<Longrightarrow> doubledSeparator (CHR ''_'' # CHR ''_'' # rest)"
proof (induction rest)
  case Nil
  then show ?case by simp
next
  case (Cons z zs)
  show ?case
  proof (cases "z = CHR ''_''")
    case True
    with Cons show ?thesis by simp
  next
    case False
    with Cons.prems show ?thesis by simp
  qed
qed

lemma camel_agree:
  "\<not> doubledSeparator s \<Longrightarrow>
     ReplaceAllStringFunc varRegexp s (\<lambda>s. Title (TrimLeft s ''_''))
       = ReplaceAllStringFunc varRegexp_dbusgen s (\<lambda>s. Title (drop 1 s))"
proof (induction s rule: length_induct)
  case (1 s)
  have ih: "length t < length s \<Longrightarrow> \<not> doubledSeparator t \<Longrightarrow>
      ReplaceAllStringFunc varRegexp t (\<lambda>s. Title (TrimLeft s ''_''))
        = ReplaceAllStringFunc varRegexp_dbusgen t (\<lambda>s. Title (drop 1 s))" for t
    using 1(1) by blast
  show ?case
  proof (cases s)
    case Nil
    then show ?thesis by simp
  next
    case s: (Cons c cs)
    have nd: "\<not> doubledSeparator cs"
      using 1(2) s doubledSeparator_tl by blast
    have ihcs: "ReplaceAllStringFunc varRegexp cs (\<lambda>s. Title (TrimLeft s ''_''))
        = ReplaceAllStringFunc varRegexp_dbusgen cs (\<lambda>s. Title (drop 1 s))"
      using ih [of cs] nd s by simp
    show ?thesis
    proof (cases "c = CHR ''_''")
      case False
      then show ?thesis
        unfolding s camel_printer_Cons camel_dbusgen_Cons using ihcs by simp
    next
      case c: True
      show ?thesis
      proof (cases cs)
        case Nil
        then show ?thesis
          unfolding s camel_printer_Cons camel_dbusgen_Cons by simp
      next
        case cs: (Cons x rest)
        show ?thesis
        proof (cases "x = CHR ''_''")
          case x: True
          have nx: "\<not> isAlnum x"
            using x isAlnum_not_underscore by blast
          have right: "ReplaceAllStringFunc varRegexp_dbusgen (c # cs) (\<lambda>s. Title (drop 1 s))
              = c # ReplaceAllStringFunc varRegexp_dbusgen cs (\<lambda>s. Title (drop 1 s))"
            using camel_dbusgen_Cons [of c cs] nx c unfolding cs
            by (simp del: ReplaceAllStringFunc.simps)
          have left: "ReplaceAllStringFunc varRegexp (c # cs) (\<lambda>s. Title (TrimLeft s ''_''))
              = c # ReplaceAllStringFunc varRegexp cs (\<lambda>s. Title (TrimLeft s ''_''))"
          proof (cases "dropWhile underscore cs")
            case Nil
            show ?thesis
              unfolding camel_printer_Cons [of c cs] Nil by simp
          next
            case d: (Cons y r)
            have "dropWhile underscore rest = y # r"
              using d cs x by simp
            then have "isAlnum y \<Longrightarrow> doubledSeparator s"
              unfolding s cs using c x doubledSeparator_run by blast
            then have "\<not> isAlnum y"
              using 1(2) by blast
            then show ?thesis
              unfolding camel_printer_Cons [of c cs] d by simp
          qed
          show ?thesis
            unfolding s left right using ihcs by simp
        next
          case x: False
          have d: "dropWhile underscore cs = x # rest"
            using cs x by simp
          have "\<not> doubledSeparator rest"
            using nd cs doubledSeparator_tl by blast
          then have ihr: "ReplaceAllStringFunc varRegexp rest (\<lambda>s. Title (TrimLeft s ''_''))
              = ReplaceAllStringFunc varRegexp_dbusgen rest (\<lambda>s. Title (drop 1 s))"
            using ih [of rest] s cs by simp
          have "ReplaceAllStringFunc varRegexp (c # cs) (\<lambda>s. Title (TrimLeft s ''_''))
              = (if isAlnum x
                 then toUpperChar x # ReplaceAllStringFunc varRegexp rest (\<lambda>s. Title (TrimLeft s ''_''))
                 else c # ReplaceAllStringFunc varRegexp cs (\<lambda>s. Title (TrimLeft s ''_'')))"
            unfolding camel_printer_Cons [of c cs] d using c by simp
          moreover
          have "ReplaceAllStringFunc varRegexp_dbusgen (c # cs) (\<lambda>s. Title (drop 1 s))
              = (if isAlnum x
                 then toUpperChar x # ReplaceAllStringFunc varRegexp_dbusgen rest (\<lambda>s. Title (drop 1 s))
                 else c # ReplaceAllStringFunc varRegexp_dbusgen cs (\<lambda>s. Title (drop 1 s)))"
            using camel_dbusgen_Cons [of c cs] c unfolding cs
            by (simp del: ReplaceAllStringFunc.simps)
          ultimately show ?thesis
            unfolding s using ihcs ihr by simp
        qed
      qed
    qed
  qed
qed

lemma camel_printer_no_underscore:
  "list_all isLower s \<Longrightarrow> ReplaceAllStringFunc varRegexp s (\<lambda>s. Title (TrimLeft s ''_'')) = s"
proof (induction s)
  case Nil
  show ?case by simp
next
  case (Cons c cs)
  have "\<not> isLower (CHR ''_'')"
    by (simp add: isLower_nat)
  with Cons.prems have "c \<noteq> CHR ''_''"
    by auto
  with Cons show ?case
    unfolding camel_printer_Cons by simp
qed

lemma ToLower_take1_lower: "list_all isLower s \<Longrightarrow> ToLower (take 1 s) = take 1 s"
  by (cases s) (simp_all add: ToLower_def toLowerChar_id isLower_not_isUpper)

lemma not_isKeyword_Itoa: "\<not> isKeyword (prefix @ Itoa i)"
proof -
  obtain c where "c \<in> set (Itoa i)" and "\<not> isLower c"
    using Itoa_not_lower [of i] by (cases "Itoa i") auto
  then show ?thesis
    using not_isKeyword_with_nonlower [of c "prefix @ Itoa i"] by simp
qed

lemma newArg_name_agrees_aux:
  assumes d: "\<not> doubledSeparator (drop 1 identifier)"
    and k: "\<not> capitalizedKeyword identifier"
  shows "newArg_name identifier prefix i
       = argName \<lparr>arg_Name = identifier, arg_Type = t\<rparr> prefix i False"
proof (cases "identifier = []")
  case True
  then show ?thesis
    by (simp add: newArg_name_def argName_def Let_def not_isKeyword_Itoa)
next
  case ne: False
  define n where "n = ToLower (take 1 identifier) @
      ReplaceAllStringFunc varRegexp (drop 1 identifier) (\<lambda>s. Title (TrimLeft s ''_''))"
  have a: "argName \<lparr>arg_Name = identifier, arg_Type = t\<rparr> prefix i False
      = (if isKeyword n then prefix @ Title n else n)"
    using ne by (simp add: argName_def Let_def n_def)
  show ?thesis
  proof (cases "isKeyword identifier")
    case True
    then have low: "list_all isLower identifier"
      using isKeyword_lower by blast
    then have "list_all isLower (drop 1 identifier)"
      by (auto simp: list_all_iff dest: in_set_dropD)
    then have "ReplaceAllStringFunc varRegexp (drop 1 identifier) (\<lambda>s. Title (TrimLeft s ''_''))
        = drop 1 identifier"
      by (rule camel_printer_no_underscore)
    moreover have "ToLower (take 1 identifier) = take 1 identifier"
      using low by (rule ToLower_take1_lower)
    ultimately have "n = take 1 identifier @ drop 1 identifier"
      unfolding n_def by (simp only:)
    then have "n = identifier"
      by simp
    with True show ?thesis
      using ne by (simp add: a newArg_name_def isKeyword_dbusgen_eq)
  next
    case False
    have "newArg_name identifier prefix i = ToLower (take 1 identifier) @
        ReplaceAllStringFunc varRegexp_dbusgen (drop 1 identifier) (\<lambda>s. Title (drop 1 s))"
      using ne False by (simp add: newArg_name_def isKeyword_dbusgen_eq)
    then have b: "newArg_name identifier prefix i = n"
      unfolding n_def camel_agree [OF d] .
    have "\<not> isKeyword n"
    proof
      assume kn: "isKeyword n"
      then have "list_all isLower n"
        using isKeyword_lower by blast
      then have "list_all isLower
          (ReplaceAllStringFunc varRegexp (drop 1 identifier) (\<lambda>s. Title (TrimLeft s ''_'')))"
        by (simp add: n_def)
      then have "n = ToLower (take 1 identifier) @ drop 1 identifier"
        unfolding n_def using camel_printer_lower by simp
      with kn False have "capitalizedKeyword identifier"
        by (simp add: capitalizedKeyword_def isKeyword_def)
      with k show False by blast
    qed
    then show ?thesis
      by (simp add: a b)
  qed
qed

text \<open>
  C10, as the code has it. \<^verbatim>\<open>newArg\<close> of package dbusgen and \<^verbatim>\<open>argName\<close> of the printer
  (not exported) give the same name for every prefix and index, when the raw name,
  after its first character, has nowhere two or more underscores directly before a
  letter or digit, and the raw name is not a keyword with its first letter in upper
  case. This is the name that \<^verbatim>\<open>newArg\<close> returns whenever the signature has a kind.
\<close>

theorem newArg_name_agrees:
  "\<not> doubledSeparator (drop 1 identifier) \<and> \<not> capitalizedKeyword identifier
     \<longrightarrow> newArg_name identifier prefix i
           = argName \<lparr>arg_Name = identifier, arg_Type = t\<rparr> prefix i False
         \<and> (\<forall>k ks. newSig signature = k # ks \<longrightarrow>
               newArg newSig identifier signature prefix i
                 = Inr \<lparr>arg_name = argName \<lparr>arg_Name = identifier, arg_Type = t\<rparr> prefix i False,
                        arg_kind = k\<rparr>)"
  using newArg_name_agrees_aux [of "identifier" "prefix" i t]
  by (simp add: newArg_def Let_def)

text \<open>The theorem at the raw name \<^verbatim>\<open>foo_bar\<close>.\<close>

theorem newArg_name_agrees_witness:
  "\<not> doubledSeparator (drop 1 ''foo_bar'') \<and> \<not> capitalizedKeyword ''foo_bar''
   \<and> newArg_name ''foo_bar'' ''v'' 0 = ''fooBar''
   \<and> newArg_name ''foo_bar'' ''v'' 0
       = argName \<lparr>arg_Name = ''foo_bar'', arg_Type = ''s''\<rparr> ''v'' 0 False
   \<and> newArg (\<lambda>sig. [''string'']) ''foo_bar'' ''s'' ''v'' 0
       = Inr \<lparr>arg_name = argName \<lparr>arg_Name = ''foo_bar'', arg_Type = ''s''\<rparr> ''v'' 0 False,
              arg_kind = ''string''\<rparr>"
proof -
  have a: "\<not> doubledSeparator (drop 1 ''foo_bar'')" and b: "\<not> capitalizedKeyword ''foo_bar''"
    by code_simp+
  have c: "newArg_name ''foo_bar'' ''v'' 0 = ''fooBar''"
    by code_simp
  from newArg_name_agrees [of "''foo_bar''" "''v''" 0 "''s''" "\<lambda>sig. [''string'']" "''s''"] a b
  have "newArg_name ''foo_bar'' ''v'' 0
       = argName \<lparr>arg_Name = ''foo_bar'', arg_Type = ''s''\<rparr> ''v'' 0 False"
    and "newArg (\<lambda>sig. [''string'']) ''foo_bar'' ''s'' ''v'' 0
       = Inr \<lparr>arg_name = argName \<lparr>arg_Name = ''foo_bar'', arg_Type = ''s''\<rparr> ''v'' 0 False,
              arg_kind = ''string''\<rparr>"
    by blast+
  with a b c show ?thesis by blast
qed

text \<open>
  The claim as it is written fails in two ways. The pattern of package dbusgen takes
  one underscore, the pattern of the printer a run of them: of two underscores the
  first stays in the one name and not in the other. And package dbusgen looks for a
  keyword before it changes the case of the first letter, the printer afterwards.
\<close>

theorem newArg_name_differs_counterexample:
  "newArg_name ''foo__bar'' ''v'' 0 = ''foo_Bar''
   \<and> argName \<lparr>arg_Name = ''foo__bar'', arg_Type = ''s''\<rparr> ''v'' 0 False = ''fooBar''
   \<and> newArg_name ''Type'' ''v'' 0 = ''type''
   \<and> argName \<lparr>arg_Name = ''Type'', arg_Type = ''s''\<rparr> ''v'' 0 False = ''vType''"
  by code_simp

subsection \<open>The derived argument name and the rules of the specification\<close>

lemma camelCaseFrom_True_dropWhile:
  "camelCaseFrom True s = camelCaseFrom True (dropWhile underscore s)"
  by (induction s) simp_all

lemma last_run_underscore:
  assumes "dropWhile underscore cs = []"
  shows "last (CHR ''_'' # cs) = CHR ''_''"
proof (cases "cs = []")
  case True
  then show ?thesis by simp
next
  case False
  then have "last cs \<in> set cs" by simp
  moreover have "\<forall>x\<in>set cs. x = CHR ''_''"
    using assms by simp
  ultimately show ?thesis
    using False by simp
qed

lemma last_after_run:
  assumes "dropWhile P cs = x # rest" and "rest \<noteq> []"
  shows "last (c # cs) = last rest"
proof -
  have "cs = takeWhile P cs @ x # rest"
    using assms(1) by (metis takeWhile_dropWhile_id)
  then have "last cs = last (x # rest)"
    by (metis last_appendR list.distinct(1))
  moreover have "cs \<noteq> []"
    using assms(1) by auto
  ultimately show ?thesis
    using assms(2) by simp
qed

lemma camel_printer_spec:
  "list_all identChar s \<Longrightarrow> s = [] \<or> last s \<noteq> CHR ''_'' \<Longrightarrow>
     ReplaceAllStringFunc varRegexp s (\<lambda>s. Title (TrimLeft s ''_'')) = camelCaseFrom False s"
proof (induction s rule: length_induct)
  case (1 s)
  have ih: "length t < length s \<Longrightarrow> list_all identChar t \<Longrightarrow> t = [] \<or> last t \<noteq> CHR ''_'' \<Longrightarrow>
      ReplaceAllStringFunc varRegexp t (\<lambda>s. Title (TrimLeft s ''_'')) = camelCaseFrom False t" for t
    using 1(1) by blast
  show ?case
  proof (cases s)
    case Nil
    then show ?thesis by simp
  next
    case s: (Cons c cs)
    have idc: "list_all identChar cs"
      using 1(2) s by simp
    have lst: "last (c # cs) \<noteq> CHR ''_''"
      using 1(3) s by simp
    show ?thesis
    proof (cases "c = CHR ''_''")
      case False
      have "cs = [] \<or> last cs \<noteq> CHR ''_''"
        using lst by (cases cs) simp_all
      then have "ReplaceAllStringFunc varRegexp cs (\<lambda>s. Title (TrimLeft s ''_''))
          = camelCaseFrom False cs"
        using ih [of cs] idc s by simp
      then show ?thesis
        unfolding s camel_printer_Cons using False by simp
    next
      case c: True
      obtain x rest where d: "dropWhile underscore cs = x # rest"
        using last_run_underscore [of cs] lst c by (cases "dropWhile underscore cs") auto
      have xs: "x \<in> set cs" and rs: "set rest \<subseteq> set cs"
        using set_dropWhile_rest [OF d] by simp_all
      have nx: "x \<noteq> CHR ''_''"
        using hd_dropWhile [of underscore cs] d by auto
      have "identChar x"
        using xs idc by (simp add: list_all_iff)
      then have ax: "isAlnum x"
        using nx by (simp add: identChar_alt)
      have "list_all identChar rest"
        using rs idc by (auto simp: list_all_iff)
      moreover have "rest = [] \<or> last rest \<noteq> CHR ''_''"
        using last_after_run [OF d, of c] lst by auto
      moreover have "length rest < length s"
        using length_dropWhile_rest [OF d] s by simp
      ultimately have ihr: "ReplaceAllStringFunc varRegexp rest (\<lambda>s. Title (TrimLeft s ''_''))
          = camelCaseFrom False rest"
        using ih [of rest] by blast
      have "camelCaseFrom False (c # cs) = camelCaseFrom True (x # rest)"
        using c camelCaseFrom_True_dropWhile [of cs] d by simp
      then have "camelCaseFrom False (c # cs) = toUpperChar x # camelCaseFrom False rest"
        using nx by simp
      moreover have "ReplaceAllStringFunc varRegexp (c # cs) (\<lambda>s. Title (TrimLeft s ''_''))
          = toUpperChar x # ReplaceAllStringFunc varRegexp rest (\<lambda>s. Title (TrimLeft s ''_''))"
        unfolding camel_printer_Cons [of c cs] d using c ax by simp
      ultimately show ?thesis
        unfolding s using ihr by simp
    qed
  qed
qed

lemma Title_upperFirst: "list_all identChar s \<Longrightarrow> Title s = upperFirst s"
  by (simp add: Title_ident upperFirst_def)

lemma argName_derive_aux:
  assumes p: "list_all identChar prefix" and i: "0 \<le> i"
    and r: "rawName = [] \<or> snakeOrCamel rawName"
  shows "argName \<lparr>arg_Name = rawName, arg_Type = t\<rparr> prefix i exported
       = derive rawName prefix i exported"
proof -
  define n0 where "n0 = (if rawName = [] then prefix @ Itoa i
      else ToLower (take 1 rawName) @
           ReplaceAllStringFunc varRegexp (drop 1 rawName) (\<lambda>s. Title (TrimLeft s ''_'')))"
  define m0 where "m0 = (if rawName = [] then prefix @ Itoa i else camelCase rawName)"
  define n1 where "n1 = (if exported then Title n0 else n0)"
  have a: "argName \<lparr>arg_Name = rawName, arg_Type = t\<rparr> prefix i exported
      = (if isKeyword n1 then prefix @ Title n1 else n1)"
    by (simp add: argName_def Let_def n0_def n1_def)
  have b: "derive rawName prefix i exported
      = (let m1 = (if exported then upperFirst m0 else m0)
         in if isKeyword m1 then prefix @ upperFirst m1 else m1)"
    by (simp add: derive_def Let_def m0_def isKeyword_def)
  have e0: "n0 = m0 \<and> list_all identChar n0"
  proof (cases rawName)
    case Nil
    have "list_all identChar (Itoa i)"
      using Itoa_nonneg_digits [OF i] by (auto simp: list_all_iff isDigit_identChar)
    then show ?thesis
      using p Nil by (simp add: n0_def m0_def)
  next
    case (Cons c cs)
    with r have sc: "snakeOrCamel (c # cs)" by simp
    then have idc: "list_all identChar cs" and ic: "identChar c"
      and nu: "\<not> isUpper c" and nc: "c \<noteq> CHR ''_''"
      and lst: "cs = [] \<or> last cs \<noteq> CHR ''_''"
      by (auto simp: snakeOrCamel_def split: if_splits)
    have "ReplaceAllStringFunc varRegexp cs (\<lambda>s. Title (TrimLeft s ''_''))
        = camelCaseFrom False cs"
      using camel_printer_spec [OF idc lst] .
    moreover have "list_all identChar (ReplaceAllStringFunc varRegexp cs (\<lambda>s. Title (TrimLeft s ''_'')))"
      using camel_printer_identChar [OF idc] .
    ultimately show ?thesis
      using Cons nu nc ic
      by (simp add: n0_def m0_def camelCase_def ToLower_def toLowerChar_id)
  qed
  then have eq: "n0 = m0" and id0: "list_all identChar m0"
    by blast+
  have t0: "Title m0 = upperFirst m0"
    using id0 by (rule Title_upperFirst)
  have e1: "n1 = (if exported then upperFirst m0 else m0)"
    by (simp add: n1_def eq t0)
  have id1: "list_all identChar n1"
    using id0 list_all_identChar_Title [OF id0] by (simp add: n1_def eq)
  have "Title n1 = upperFirst n1"
    using id1 by (rule Title_upperFirst)
  then show ?thesis
    by (simp add: a b Let_def e1 [symmetric])
qed

text \<open>
  C4, as the code has it. For a raw name that is empty or in snake case or camel case,
  a prefix of letters, digits and underscores and an index that is not negative,
  \<^verbatim>\<open>argName\<close> gives what the four rules give, applied in their order: the prefix and
  the index for the empty name; else the name with every run of underscores deleted
  and the character behind it in upper case; then the first character in upper case
  when the name is exported; then, for a keyword, the prefix and the name with its
  first character in upper case.
\<close>

theorem argName_follows_rules:
  "list_all identChar prefix \<and> 0 \<le> i \<and> (rawName = [] \<or> snakeOrCamel rawName)
     \<longrightarrow> argName \<lparr>arg_Name = rawName, arg_Type = t\<rparr> prefix i exported
           = derive rawName prefix i exported"
  using argName_derive_aux by blast

text \<open>The theorem at the examples of the specification.\<close>

theorem argName_follows_rules_witness:
  "list_all identChar ''v'' \<and> list_all identChar ''in'' \<and> (0::int) \<le> 0 \<and> (0::int) \<le> 2
   \<and> snakeOrCamel ''foo_bar'' \<and> snakeOrCamel ''type''
   \<and> argName \<lparr>arg_Name = ''foo_bar'', arg_Type = ''s''\<rparr> ''v'' 0 False
       = derive ''foo_bar'' ''v'' 0 False
   \<and> derive ''foo_bar'' ''v'' 0 False = ''fooBar''
   \<and> argName \<lparr>arg_Name = '''', arg_Type = ''s''\<rparr> ''in'' 2 False = derive '''' ''in'' 2 False
   \<and> derive '''' ''in'' 2 False = ''in2''
   \<and> argName \<lparr>arg_Name = ''type'', arg_Type = ''s''\<rparr> ''v'' 0 True = derive ''type'' ''v'' 0 True
   \<and> derive ''type'' ''v'' 0 True = ''Type''
   \<and> argName \<lparr>arg_Name = ''type'', arg_Type = ''s''\<rparr> ''v'' 0 False = derive ''type'' ''v'' 0 False
   \<and> derive ''type'' ''v'' 0 False = ''vType''"
proof -
  have h: "list_all identChar ''v''" "list_all identChar ''in''"
      "snakeOrCamel ''foo_bar''" "snakeOrCamel ''type''"
    by code_simp+
  have v: "derive ''foo_bar'' ''v'' 0 False = ''fooBar''"
      "derive '''' ''in'' 2 False = ''in2''"
      "derive ''type'' ''v'' 0 True = ''Type''"
      "derive ''type'' ''v'' 0 False = ''vType''"
    by code_simp+
  have 1: "argName \<lparr>arg_Name = ''foo_bar'', arg_Type = ''s''\<rparr> ''v'' 0 False
       = derive ''foo_bar'' ''v'' 0 False"
    using argName_follows_rules [of "''v''" 0 "''foo_bar''" "''s''" False] h by simp
  have 2: "argName \<lparr>arg_Name = '''', arg_Type = ''s''\<rparr> ''in'' 2 False = derive '''' ''in'' 2 False"
    using argName_follows_rules [of "''in''" 2 "''''" "''s''" False] h by simp
  have 3: "argName \<lparr>arg_Name = ''type'', arg_Type = ''s''\<rparr> ''v'' 0 True = derive ''type'' ''v'' 0 True"
    using argName_follows_rules [of "''v''" 0 "''type''" "''s''" True] h by simp
  have 4: "argName \<lparr>arg_Name = ''type'', arg_Type = ''s''\<rparr> ''v'' 0 False = derive ''type'' ''v'' 0 False"
    using argName_follows_rules [of "''v''" 0 "''type''" "''s''" False] h by simp
  from h v 1 2 3 4 show ?thesis by simp
qed

text \<open>
  The claim as it is written fails outside these names. The first character is not
  part of the text that is searched for underscores, and an underscore is only deleted
  with a letter or a digit behind it: an underscore in front stays, and the character
  behind it stays in lower case; an underscore at the end stays.
\<close>

theorem argName_keeps_separators_counterexample:
  "argName \<lparr>arg_Name = ''_foo'', arg_Type = ''s''\<rparr> ''v'' 0 False = ''_foo''
   \<and> derive ''_foo'' ''v'' 0 False = ''Foo''
   \<and> argName \<lparr>arg_Name = ''foo_'', arg_Type = ''s''\<rparr> ''v'' 0 False = ''foo_''
   \<and> derive ''foo_'' ''v'' 0 False = ''foo''"
  by code_simp

subsection \<open>Stripping a prefix from the interface name\<close>

text \<open>
  C6. The claim has it that a prefix is removed from the front of the name only. The
  code looks for the prefix anywhere in the name (\<^verbatim>\<open>strings.Index\<close>) and cuts the name
  behind the occurrence and one more character: with the prefix \<^verbatim>\<open>org.\<close> the name
  \<^verbatim>\<open>com.org.example.Foo\<close>, which does not start with it, loses \<^verbatim>\<open>com.org.\<close> and gives
  the type of \<^verbatim>\<open>org.example.Foo\<close>; and the prefix \<^verbatim>\<open>org.ex\<close> takes the \<^verbatim>\<open>a\<close> behind it
  away as if it were the dot.
\<close>

theorem ifaceType_strips_inner_occurrence:
  "\<not> HasPrefix (iface_Name comOrgExampleFoo) ''org.''
   \<and> ifaceType (newPrinter [WithPrefixes [''org.'']]) comOrgExampleFoo = Inr ''Example_Foo''
   \<and> ifaceType (newPrinter []) comOrgExampleFoo = Inr ''Com_Org_Example_Foo''
   \<and> HasPrefix (iface_Name orgExampleFoo) ''org.''
   \<and> ifaceType (newPrinter [WithPrefixes [''org.'']]) orgExampleFoo = Inr ''Example_Foo''
   \<and> ifaceType (newPrinter [WithPrefixes [''org.ex'']]) orgExampleFoo = Inr ''Mple_Foo''"
  by code_simp

subsection \<open>Accessors of a property\<close>

text \<open>
  C7. The claim has it that no getter is made when a method has the derived name of
  the getter. The code compares the name of the getter with the raw names of the
  methods: next to the method \<^verbatim>\<open>getFoo\<close>, whose derived name is \<^verbatim>\<open>GetFoo\<close>, the readable
  property \<^verbatim>\<open>Foo\<close> still gets its getter \<^verbatim>\<open>GetFoo\<close>.
\<close>

theorem propNeedsGet_misses_derived_name:
  "prop_Read propFoo \<and> prop_Write propFoo
   \<and> methodGetFoo \<in> set (iface_Methods ifaceGetFoo)
   \<and> methodType methodGetFoo = ''GetFoo''
   \<and> propGetType propFoo = ''GetFoo''
   \<and> propNeedsGet ifaceGetFoo propFoo
   \<and> propNeedsSet ifaceGetFoo propFoo"
  by code_simp

lemma propNeedsAccessorLoop_iff:
  "propNeedsAccessorLoop ms name \<longleftrightarrow> name \<notin> method_Name ` set ms"
  by (induction ms) auto

lemma propNeedsGet_iff:
  "propNeedsGet iface prop \<longleftrightarrow>
     prop_Read prop \<and> propGetType prop \<notin> method_Name ` set (iface_Methods iface)"
  by (simp add: propNeedsGet_def propNeedsAccessor_def propNeedsAccessorLoop_iff)

subsection \<open>Print without formatting\<close>

lemma example_execute_fooDashBar:
  "\<not> isl (execute (newPrinter [WithGofmt False])
           \<lparr>PackageName = pkgName (newPrinter [WithGofmt False]),
            Interfaces = prepareIfaces refusingEnv [fooDashBar]\<rparr>)"
  by code_simp

lemma example_ifaceType_fooDashBar:
  "ifaceType (newPrinter [WithGofmt False]) fooDashBar = Inr ''Foo-Bar''"
  by code_simp

text \<open>
  C9. The claim has it that with formatting off every text of the template is written
  as it is. The code parses the text before it looks at the option: when the parser
  refuses the text, \<^verbatim>\<open>Print\<close> returns the error of the parser and writes nothing,
  with formatting off as with formatting on.
\<close>

theorem Print_parses_without_gofmt:
  assumes "\<not> gofmt (newPrinter opts)"
    and "MatchString identRegexp (pkgName (newPrinter opts))"
    and "ifaces0 \<noteq> []"
    and "execute (newPrinter opts)
           \<lparr>PackageName = pkgName (newPrinter opts), Interfaces = prepareIfaces e ifaces0\<rparr>
         = Inr buf"
    and "parseFile e buf = Some er"
  shows "Print e out0 ifaces0 opts =
           \<lparr>res_err = Some er, res_out = out0, res_ifaces = prepareIfaces e ifaces0\<rparr>"
  using assms by (simp add: Print_def Let_def)

text \<open>
  The theorem at the interface \<^verbatim>\<open>foo-bar\<close>, whose type \<^verbatim>\<open>Foo-Bar\<close> no parser of Go accepts,
  with formatting off.
\<close>

theorem Print_parses_without_gofmt_witness:
  "\<not> gofmt (newPrinter [WithGofmt False])
   \<and> MatchString identRegexp (pkgName (newPrinter [WithGofmt False]))
   \<and> [fooDashBar] \<noteq> []
   \<and> ifaceType (newPrinter [WithGofmt False]) fooDashBar = Inr ''Foo-Bar''
   \<and> Print refusingEnv [] [fooDashBar] [WithGofmt False] =
        \<lparr>res_err = Some (ParseError ''expected ;, found -''), res_out = [],
         res_ifaces = prepareIfaces refusingEnv [fooDashBar]\<rparr>"
proof -
  have g: "\<not> gofmt (newPrinter [WithGofmt False])"
    by (simp add: newPrinter_def)
  have m: "MatchString identRegexp (pkgName (newPrinter [WithGofmt False]))"
    by code_simp
  obtain buf where b: "execute (newPrinter [WithGofmt False])
           \<lparr>PackageName = pkgName (newPrinter [WithGofmt False]),
            Interfaces = prepareIfaces refusingEnv [fooDashBar]\<rparr> = Inr buf"
    using example_execute_fooDashBar by (metis sum.collapse(2))
  have p: "parseFile refusingEnv buf = Some (ParseError ''expected ;, found -'')"
    by (simp add: refusingEnv_def)
  have "Print refusingEnv [] [fooDashBar] [WithGofmt False] =
        \<lparr>res_err = Some (ParseError ''expected ;, found -''), res_out = [],
         res_ifaces = prepareIfaces refusingEnv [fooDashBar]\<rparr>"
    using Print_parses_without_gofmt [OF g m _ b p] by simp
  with g m example_ifaceType_fooDashBar show ?thesis by simp
qed

end
